theory Spec2Isabelle
  imports Main
begin

section \<open>GitSignal: weekly series from the GitHub API (src/lib/github.ts)\<close>

text \<open>
  The functions of \<^verbatim>\<open>src/lib/github.ts\<close> that fetch GitHub statistics and turn them
  into weekly series. Conventions of the embedding:
  \<^item> JavaScript numbers that hold timestamps and counts are integers here (\<open>int\<close>, or
    \<open>nat\<close> for counters that start at 0 and only grow); the code does no fractional
    arithmetic on them apart from \<^verbatim>\<open>Math.floor(ms / 1000)\<close>, which is \<open>div\<close>.
  \<^item> A \<^verbatim>\<open>Date\<close> is its \<^verbatim>\<open>getTime()\<close>, in milliseconds. A timestamp string of
    a fetched item is the instant it parses to; \<open>None\<close> is a missing, \<^verbatim>\<open>null\<close> or
    empty (falsy) field.
  \<^item> A thrown exception is the \<open>Inl\<close> of a sum type.
  \<^item> The transport is the environment: a call of \<^verbatim>\<open>fetch\<close> yields a response with a
    status and a JSON body. The repository, the query string and the headers are
    fixed during one operation, so the server is a function from the page number
    to the response (a single response for the two statistics endpoints).
  \<^item> A body is well-formed JSON and a timestamp string is a valid date, as GitHub
    sends them: a rejection of \<^verbatim>\<open>fetch\<close> or \<^verbatim>\<open>response.json()\<close> and an invalid
    \<^verbatim>\<open>Date\<close> are outside the model.
  \<^item> The wall clock is an input: \<^verbatim>\<open>Date.now()\<close> and the \<^verbatim>\<open>Date\<close> computed by
    \<^verbatim>\<open>setDate(getDate() - 52 * 7)\<close> (local calendar arithmetic) are parameters.
\<close>

subsection \<open>Errors and responses\<close>

text \<open>
  The exceptions the fetch functions throw:
  \<^item> \<open>NotFound\<close>: \<^verbatim>\<open>new Error(`Repository ${owner}/${name} not found`)\<close>;
  \<^item> \<open>RateLimited\<close>: \<^verbatim>\<open>new Error("GitHub API rate limit exceeded. Try again later.")\<close>;
  \<^item> \<open>StatsComputing\<close>: \<^verbatim>\<open>new StatsComputingError()\<close>;
  \<^item> \<open>FetchFailed\<close>: \<^verbatim>\<open>new Error(`Failed to fetch ...: ${response.statusText}`)\<close>.
\<close>

datatype error = NotFound | RateLimited | StatsComputing | FetchFailed

text \<open>The value of \<^verbatim>\<open>await response.json()\<close>: an array of items, or any other JSON value.\<close>

datatype 'a json_body = NotArray | Array "'a list"

record 'a response =
  status :: nat
  body :: "'a json_body"

text \<open>\<^verbatim>\<open>response.ok\<close>, as the Fetch standard defines it: the status is in the range 200 to 299.\<close>

definition ok :: "('a, 'm) response_scheme \<Rightarrow> bool" where
  "ok r = (200 \<le> status r \<and> status r \<le> 299)"

text \<open>
  The \<^verbatim>\<open>if (!response.ok) { ... }\<close> block of \<^verbatim>\<open>fetchCommitActivity\<close> and
  \<^verbatim>\<open>fetchContributorsOverTime\<close>: the exception thrown for a status, reached only
  when \<open>ok\<close> is false.
\<close>

definition statsError :: "nat \<Rightarrow> error" where
  "statsError s =
     (if s = 404 then NotFound
      else if s = 403 then RateLimited
      else if s = 202 then StatsComputing
      else FetchFailed)"

text \<open>The same block of the three paginated functions, which has no case for 202.\<close>

definition pageError :: "nat \<Rightarrow> error" where
  "pageError s =
     (if s = 404 then NotFound
      else if s = 403 then RateLimited
      else FetchFailed)"

subsection \<open>Commit activity\<close>

text \<open>\<^verbatim>\<open>CommitActivity\<close>: \<^verbatim>\<open>{ week, total, days }\<close>, as a triple in that order.\<close>

type_synonym CommitActivity = "int \<times> int \<times> int list"

definition fetchCommitActivity :: "CommitActivity response \<Rightarrow> error + CommitActivity list" where
  "fetchCommitActivity response =
     (if \<not> ok response then Inl (statsError (status response))
      else case body response of
        NotArray \<Rightarrow> Inl StatsComputing
      | Array data \<Rightarrow>
          if length data = 0 then Inl StatsComputing
          else Inr (map (\<lambda>(week, total, days). (week, total, days)) data))"

subsection \<open>Weekly points\<close>

text \<open>
  \<^verbatim>\<open>StarWeek\<close>, \<^verbatim>\<open>IssueWeek\<close> and \<^verbatim>\<open>ContributorWeek\<close> are the same interface up to
  the name of the second field (\<^verbatim>\<open>stars\<close>, \<^verbatim>\<open>issues\<close>, \<^verbatim>\<open>contributors\<close>), which is
  \<open>tally\<close> here.
\<close>

record WeekPoint =
  week :: int
  tally :: nat

type_synonym StarWeek = WeekPoint
type_synonym IssueWeek = WeekPoint
type_synonym ContributorWeek = WeekPoint

text \<open>\<^verbatim>\<open>map.get(k) || 0\<close> on a \<^verbatim>\<open>Map<number, number>\<close>.\<close>

definition getOr0 :: "(int \<rightharpoonup> nat) \<Rightarrow> int \<Rightarrow> nat" where
  "getOr0 m k = (case m k of None \<Rightarrow> 0 | Some v \<Rightarrow> v)"

subsection \<open>Contributors per week\<close>

text \<open>An element \<^verbatim>\<open>{ w, c }\<close> of a contributor's \<^verbatim>\<open>weeks\<close>, and a contributor.\<close>

record weekEntry =
  entry_w :: int
  entry_c :: int

record contributor =
  author :: string
  weeks :: "weekEntry list"

text \<open>\<^verbatim>\<open>Set.prototype.add\<close> on a set kept in insertion order.\<close>

definition setAdd :: "int \<Rightarrow> int list \<Rightarrow> int list" where
  "setAdd x xs = (if x \<in> set xs then xs else xs @ [x])"

text \<open>
  The body of the \<^verbatim>\<open>for (const week of contributor.weeks)\<close> loop, on the pair
  (\<^verbatim>\<open>allWeeks\<close>, \<^verbatim>\<open>weekToContributors\<close>).
\<close>

definition eachWeekEntry :: "weekEntry \<Rightarrow> int list \<times> (int \<rightharpoonup> nat) \<Rightarrow> int list \<times> (int \<rightharpoonup> nat)" where
  "eachWeekEntry e st =
     (case st of (allWeeks, weekToContributors) \<Rightarrow>
        (setAdd (entry_w e) allWeeks,
         if entry_c e > 0
         then weekToContributors(entry_w e \<mapsto> getOr0 weekToContributors (entry_w e) + 1)
         else weekToContributors))"

definition eachContributor :: "contributor \<Rightarrow> int list \<times> (int \<rightharpoonup> nat) \<Rightarrow> int list \<times> (int \<rightharpoonup> nat)" where
  "eachContributor k st = fold eachWeekEntry (weeks k) st"

text \<open>Lines 216 to 236 of \<^verbatim>\<open>fetchContributorsOverTime\<close>: from the parsed array to the series.\<close>

definition contributorWeeks :: "contributor list \<Rightarrow> ContributorWeek list" where
  "contributorWeeks data =
     (case fold eachContributor data ([], Map.empty) of (allWeeks, weekToContributors) \<Rightarrow>
        map (\<lambda>wk. \<lparr>week = wk, tally = getOr0 weekToContributors wk\<rparr>) (sort allWeeks))"

definition fetchContributorsOverTime :: "contributor response \<Rightarrow> error + ContributorWeek list" where
  "fetchContributorsOverTime response =
     (if \<not> ok response then Inl (statsError (status response))
      else case body response of
        NotArray \<Rightarrow> Inl StatsComputing
      | Array data \<Rightarrow>
          if length data = 0 then Inl StatsComputing
          else Inr (contributorWeeks data))"

subsection \<open>Week buckets\<close>

definition secondsPerWeek :: int where
  "secondsPerWeek = 7 * 24 * 60 * 60"

text \<open>JavaScript's \<^verbatim>\<open>%\<close> on integers: the remainder has the sign of the dividend.\<close>

definition jsRem :: "int \<Rightarrow> int \<Rightarrow> int" where
  "jsRem a b = sgn a * (\<bar>a\<bar> mod \<bar>b\<bar>)"

text \<open>\<^verbatim>\<open>t - (t % secondsPerWeek)\<close>, written inline in the source wherever a week starts.\<close>

definition weekStartOf :: "int \<Rightarrow> int" where
  "weekStartOf t = t - jsRem t secondsPerWeek"

text \<open>
  The body of \<^verbatim>\<open>dates.forEach\<close> that counts per week: \<open>date\<close> is in milliseconds.
\<close>

definition countDate :: "int \<Rightarrow> (int \<rightharpoonup> nat) \<Rightarrow> (int \<rightharpoonup> nat)" where
  "countDate date m =
     (let timestamp = date div 1000;
          weekStart = weekStartOf timestamp
      in m(weekStart \<mapsto> getOr0 m weekStart + 1))"

text \<open>
  The loop \<^verbatim>\<open>while (weekStart <= currentWeekStart) { result.push(...); weekStart += secondsPerWeek }\<close>.
\<close>

function buildWeeks :: "(int \<rightharpoonup> nat) \<Rightarrow> int \<Rightarrow> int \<Rightarrow> WeekPoint list \<Rightarrow> WeekPoint list" where
  "buildWeeks m weekStart currentWeekStart result =
     (if weekStart \<le> currentWeekStart
      then buildWeeks m (weekStart + secondsPerWeek) currentWeekStart
             (result @ [\<lparr>week = weekStart, tally = getOr0 m weekStart\<rparr>])
      else result)"
  by pat_completeness auto
termination
  by (relation "measure (\<lambda>(m, weekStart, currentWeekStart, result). nat (currentWeekStart - weekStart + 1))")
     (auto simp: secondsPerWeek_def)

subsection \<open>Pagination\<close>

text \<open>
  The loop \<^verbatim>\<open>while (hasMore && page <= maxPages)\<close>, which the three paginated functions
  share word for word up to the callback of \<^verbatim>\<open>data.forEach\<close> (\<open>each\<close>, from an item and
  the dates pushed so far to the dates pushed) and the text of the last error message.
  The state is \<^verbatim>\<open>page\<close>, \<^verbatim>\<open>hasMore\<close> and the array of dates; \<open>requested\<close> records the
  page numbers asked of the server, in order. The result is the pages requested and
  either the exception thrown or the dates collected.
\<close>

function pageLoop ::
  "(nat \<Rightarrow> 'a response) \<Rightarrow> ('a \<Rightarrow> int list \<Rightarrow> int list) \<Rightarrow> nat \<Rightarrow>
   nat \<Rightarrow> bool \<Rightarrow> int list \<Rightarrow> nat list \<Rightarrow> nat list \<times> (error + int list)" where
  "pageLoop fetch each maxPages page hasMore dates requested =
     (if hasMore \<and> page \<le> maxPages then
        (if \<not> ok (fetch page)
         then (requested @ [page], Inl (pageError (status (fetch page))))
         else case body (fetch page) of
           NotArray \<Rightarrow> pageLoop fetch each maxPages page False dates (requested @ [page])
         | Array data \<Rightarrow>
             if length data = 0
             then pageLoop fetch each maxPages page False dates (requested @ [page])
             else pageLoop fetch each maxPages (page + 1) (\<not> length data < 100)
                    (fold each data dates) (requested @ [page]))
      else (requested, Inr dates))"
  by pat_completeness auto
termination
  by (relation "measure (\<lambda>(fetch, each, maxPages, page, hasMore, dates, requested).
        (if hasMore then 1 else 0) + (Suc maxPages - page))")
     auto

subsection \<open>Stars\<close>

record star =
  starred_at :: "int option"

text \<open>\<^verbatim>\<open>if (star.starred_at) starDates.push(new Date(star.starred_at))\<close>.\<close>

definition eachStar :: "star \<Rightarrow> int list \<Rightarrow> int list" where
  "eachStar s starDates =
     (case starred_at s of None \<Rightarrow> starDates | Some t \<Rightarrow> starDates @ [t])"

text \<open>
  \<open>nowMs\<close> is \<^verbatim>\<open>Date.now()\<close>, read after the last page. \<^verbatim>\<open>starDates[0]\<close> is read
  only when the array is not empty.
\<close>

definition fetchStarHistory ::
  "(nat \<Rightarrow> star response) \<Rightarrow> int \<Rightarrow> nat \<Rightarrow> nat list \<times> (error + StarWeek list)" where
  "fetchStarHistory fetch nowMs maxPages =
     (case pageLoop fetch eachStar maxPages 1 True [] [] of
        (requested, Inl e) \<Rightarrow> (requested, Inl e)
      | (requested, Inr starDates) \<Rightarrow>
          if length starDates = 0 then (requested, Inr [])
          else
            let starDates = sort starDates;
                now = nowMs div 1000;
                currentWeekStart = weekStartOf now;
                firstStarTime = hd starDates div 1000;
                firstWeekStart = weekStartOf firstStarTime;
                weekToStars = fold countDate starDates Map.empty
            in (requested, Inr (buildWeeks weekToStars firstWeekStart currentWeekStart [])))"

subsection \<open>Issues opened and closed\<close>

text \<open>
  What the code can observe of the \<^verbatim>\<open>pull_request?: unknown\<close> field is whether it is
  truthy. A JSON value is falsy when it is \<^verbatim>\<open>null\<close>, \<^verbatim>\<open>false\<close>, \<^verbatim>\<open>0\<close> or the
  empty string; arrays and objects are truthy whatever they hold.
\<close>

datatype json = JNull | JBool bool | JNum int | JStr string | JArr | JObj

fun truthy :: "json \<Rightarrow> bool" where
  "truthy JNull = False"
| "truthy (JBool b) = b"
| "truthy (JNum n) = (n \<noteq> 0)"
| "truthy (JStr s) = (s \<noteq> [])"
| "truthy JArr = True"
| "truthy JObj = True"

record issue =
  created_at :: "int option"
  closed_at :: "int option"
  pull_request :: "json option"

text \<open>\<^verbatim>\<open>!issue.pull_request\<close>: an absent field is \<^verbatim>\<open>undefined\<close>, which is falsy.\<close>

definition notPullRequest :: "issue \<Rightarrow> bool" where
  "notPullRequest i = (case pull_request i of None \<Rightarrow> True | Some v \<Rightarrow> \<not> truthy v)"

text \<open>
  The two \<^verbatim>\<open>forEach\<close> callbacks, \<^verbatim>\<open>if (!issue.pull_request && issue.created_at) ...\<close>
  and its twin on \<^verbatim>\<open>closed_at\<close>; \<open>fiftyTwoWeeksAgo\<close> is in milliseconds.
\<close>

definition eachIssue :: "int \<Rightarrow> issue \<Rightarrow> int list \<Rightarrow> int list" where
  "eachIssue fiftyTwoWeeksAgo i issueDates =
     (if notPullRequest i then
        (case created_at i of
           None \<Rightarrow> issueDates
         | Some createdAt \<Rightarrow>
             if createdAt \<ge> fiftyTwoWeeksAgo then issueDates @ [createdAt] else issueDates)
      else issueDates)"

definition eachClosed :: "int \<Rightarrow> issue \<Rightarrow> int list \<Rightarrow> int list" where
  "eachClosed fiftyTwoWeeksAgo i closedDates =
     (if notPullRequest i then
        (case closed_at i of
           None \<Rightarrow> closedDates
         | Some closedAt \<Rightarrow>
             if closedAt \<ge> fiftyTwoWeeksAgo then closedDates @ [closedAt] else closedDates)
      else closedDates)"

text \<open>
  Lines 387 to 416 and 476 to 505, the same in both functions: from the dates
  collected to the series.
\<close>

definition issueSeries :: "int \<Rightarrow> int \<Rightarrow> int list \<Rightarrow> IssueWeek list" where
  "issueSeries fiftyTwoWeeksAgo nowMs issueDates =
     (let now = nowMs div 1000;
          currentWeekStart = weekStartOf now;
          startWeek = fiftyTwoWeeksAgo div 1000;
          firstWeekStart = weekStartOf startWeek;
          weekToIssues = fold countDate issueDates Map.empty
      in buildWeeks weekToIssues firstWeekStart currentWeekStart [])"

definition fetchIssuesOverTime ::
  "(nat \<Rightarrow> issue response) \<Rightarrow> int \<Rightarrow> int \<Rightarrow> nat \<Rightarrow> nat list \<times> (error + IssueWeek list)" where
  "fetchIssuesOverTime fetch fiftyTwoWeeksAgo nowMs maxPages =
     (case pageLoop fetch (eachIssue fiftyTwoWeeksAgo) maxPages 1 True [] [] of
        (requested, Inl e) \<Rightarrow> (requested, Inl e)
      | (requested, Inr issueDates) \<Rightarrow>
          (requested, Inr (issueSeries fiftyTwoWeeksAgo nowMs issueDates)))"

definition fetchIssuesClosedOverTime ::
  "(nat \<Rightarrow> issue response) \<Rightarrow> int \<Rightarrow> int \<Rightarrow> nat \<Rightarrow> nat list \<times> (error + IssueWeek list)" where
  "fetchIssuesClosedOverTime fetch fiftyTwoWeeksAgo nowMs maxPages =
     (case pageLoop fetch (eachClosed fiftyTwoWeeksAgo) maxPages 1 True [] [] of
        (requested, Inl e) \<Rightarrow> (requested, Inl e)
      | (requested, Inr closedDates) \<Rightarrow>
          (requested, Inr (issueSeries fiftyTwoWeeksAgo nowMs closedDates)))"

section \<open>Notions used to state the properties\<close>

text \<open>The items of a page (none when the body is not an array) and their number.\<close>

definition pageItems :: "'a response \<Rightarrow> 'a list" where
  "pageItems r = (case body r of NotArray \<Rightarrow> [] | Array data \<Rightarrow> data)"

definition pageSize :: "'a response \<Rightarrow> nat" where
  "pageSize r = length (pageItems r)"

text \<open>
  A run of \<open>pageLoop\<close> entered at \<open>page\<close> with \<^verbatim>\<open>hasMore\<close> true that requests \<open>k\<close>
  pages: every page but the last was delivered and full, the last one ends the loop
  unless the ceiling does, and the outcome is the error of the last page or the
  dates of all the pages.
\<close>

definition runFrom ::
  "(nat \<Rightarrow> 'a response) \<Rightarrow> ('a \<Rightarrow> int list \<Rightarrow> int list) \<Rightarrow> nat \<Rightarrow> nat \<Rightarrow> int list \<Rightarrow> nat list \<Rightarrow>
   nat \<Rightarrow> bool" where
  "runFrom f e M page d l k \<longleftrightarrow>
     page + k \<le> Suc M \<and>
     fst (pageLoop f e M page True d l) = l @ [page..<page + k] \<and>
     (\<forall>q. page \<le> q \<and> Suc q < page + k \<longrightarrow> ok (f q) \<and> 100 \<le> pageSize (f q)) \<and>
     (page + k \<le> M \<longrightarrow> 0 < k \<and> (\<not> ok (f (page + k - 1)) \<or> pageSize (f (page + k - 1)) < 100)) \<and>
     (case snd (pageLoop f e M page True d l) of
        Inl err \<Rightarrow> 0 < k \<and> \<not> ok (f (page + k - 1)) \<and> err = pageError (status (f (page + k - 1)))
      | Inr dates \<Rightarrow> (\<forall>q. page \<le> q \<and> q < page + k \<longrightarrow> ok (f q)) \<and>
          dates = fold e (concat (map (\<lambda>q. pageItems (f q)) [page..<page + k])) d)"

text \<open>
  A server that delivers the given pages with status 200, numbered from 1, and the
  empty array for every other page number.
\<close>

definition pagesOf :: "'a list list \<Rightarrow> nat \<Rightarrow> 'a response" where
  "pagesOf pages p =
     \<lparr>status = 200,
      body = Array (if 1 \<le> p \<and> p \<le> length pages then pages ! (p - 1) else [])\<rparr>"

text \<open>The same responses with every item replaced by its image under \<open>h\<close>.\<close>

definition mapItems :: "('a \<Rightarrow> 'b) \<Rightarrow> 'a response \<Rightarrow> 'b response" where
  "mapItems h r = \<lparr>status = status r, body = map_json_body h (body r)\<rparr>"

text \<open>The number of iterations of the loop of \<open>buildWeeks\<close>.\<close>

definition weekCount :: "int \<Rightarrow> int \<Rightarrow> nat" where
  "weekCount first cur = (if first \<le> cur then nat ((cur - first) div secondsPerWeek) + 1 else 0)"

text \<open>
  The specification's count for a week: the distinct contributors, told apart by
  their author, whose commit count for that week is greater than zero.
\<close>

definition activeIn :: "int \<Rightarrow> contributor \<Rightarrow> bool" where
  "activeIn wk k = (\<exists>e \<in> set (weeks k). entry_w e = wk \<and> 0 < entry_c e)"

definition spec_activeContributors :: "contributor list \<Rightarrow> int \<Rightarrow> nat" where
  "spec_activeContributors data wk = length (remdups (map author (filter (activeIn wk) data)))"

text \<open>
  The page at which the pagination stops: every page before it was delivered with
  at least 100 items, and it is below the ceiling only if it is short (fewer than 100
  items, none, or a body that is no array) or was not delivered. \<open>pagesUpTo\<close> is
  the concatenation of the items of the pages 1 to \<open>k\<close>, in page order.
\<close>

definition lastPage :: "(nat \<Rightarrow> 'a response) \<Rightarrow> nat \<Rightarrow> nat \<Rightarrow> bool" where
  "lastPage fetch maxPages k \<longleftrightarrow>
     k \<le> maxPages \<and>
     (\<forall>p. 1 \<le> p \<and> p < k \<longrightarrow> ok (fetch p) \<and> 100 \<le> pageSize (fetch p)) \<and>
     (k < maxPages \<longrightarrow> 0 < k \<and> (\<not> ok (fetch k) \<or> pageSize (fetch k) < 100))"

definition pagesUpTo :: "(nat \<Rightarrow> 'a response) \<Rightarrow> nat \<Rightarrow> 'a list" where
  "pagesUpTo fetch k = concat (map (\<lambda>p. pageItems (fetch p)) [1..<Suc k])"

declare pageLoop.simps [simp del]
declare buildWeeks.simps [simp del]

section \<open>Properties\<close>

subsection \<open>The loop that builds the weeks\<close>

lemma secondsPerWeek_pos: "0 < secondsPerWeek"
  by (simp add: secondsPerWeek_def)

lemma secondsPerWeek_eq: "secondsPerWeek = 604800"
  by (simp add: secondsPerWeek_def)

lemma weekCount_step:
  "first \<le> cur \<Longrightarrow> weekCount first cur = Suc (weekCount (first + secondsPerWeek) cur)"
proof -
  assume le: "first \<le> cur"
  show ?thesis
  proof (cases "first + secondsPerWeek \<le> cur")
    case True
    have "(cur - first) div secondsPerWeek = (cur - (first + secondsPerWeek)) div secondsPerWeek + 1"
      using secondsPerWeek_pos
      by (metis add.commute add_diff_cancel_left' diff_diff_eq div_add_self2 less_irrefl diff_add_cancel)
    moreover have "0 \<le> (cur - (first + secondsPerWeek)) div secondsPerWeek"
      using True secondsPerWeek_pos by (simp add: pos_imp_zdiv_nonneg_iff)
    ultimately show ?thesis using True le
      by (simp add: weekCount_def nat_add_distrib)
  next
    case False
    then have "(cur - first) div secondsPerWeek = 0"
      using le secondsPerWeek_pos by (simp add: div_pos_pos_trivial)
    then show ?thesis using False le by (simp add: weekCount_def)
  qed
qed

lemma buildWeeks_eq:
  "buildWeeks m first cur result =
     result @ map (\<lambda>k. \<lparr>week = first + int k * secondsPerWeek,
                        tally = getOr0 m (first + int k * secondsPerWeek)\<rparr>)
                [0..<weekCount first cur]"
proof (induction m first cur result rule: buildWeeks.induct)
  case (1 m weekStart currentWeekStart result)
  show ?case
  proof (cases "weekStart \<le> currentWeekStart")
    case True
    have "[0..<weekCount weekStart currentWeekStart] =
          0 # map Suc [0..<weekCount (weekStart + secondsPerWeek) currentWeekStart]"
      using weekCount_step [OF True] by (simp add: upt_conv_Cons map_Suc_upt del: upt_Suc)
    then show ?thesis
      using True "1.IH" [OF True]
      by (subst buildWeeks.simps) (simp add: comp_def algebra_simps)
  next
    case False
    then show ?thesis
      by (subst buildWeeks.simps) (simp add: weekCount_def)
  qed
qed

lemma buildWeeks_length: "length (buildWeeks m first cur []) = weekCount first cur"
  by (simp add: buildWeeks_eq)

lemma buildWeeks_nth:
  "i < weekCount first cur \<Longrightarrow>
   buildWeeks m first cur [] ! i =
     \<lparr>week = first + int i * secondsPerWeek, tally = getOr0 m (first + int i * secondsPerWeek)\<rparr>"
  by (simp add: buildWeeks_eq)

lemma buildWeeks_dense:
  assumes "Suc i < length (buildWeeks m first cur [])"
  shows "week (buildWeeks m first cur [] ! Suc i) - week (buildWeeks m first cur [] ! i) = secondsPerWeek"
proof -
  from assms have "Suc i < weekCount first cur" "i < weekCount first cur"
    by (simp_all add: buildWeeks_length)
  then show ?thesis
    by (simp add: buildWeeks_nth algebra_simps)
qed

lemma buildWeeks_aligned:
  assumes "first mod secondsPerWeek = 0" "p \<in> set (buildWeeks m first cur [])"
  shows "week p mod secondsPerWeek = 0"
proof -
  from assms(2) have "\<exists>k. week p = first + int k * secondsPerWeek"
    by (auto simp: buildWeeks_eq)
  then obtain k where "week p = first + int k * secondsPerWeek" ..
  with assms(1) show ?thesis by simp
qed

lemma buildWeeks_tally:
  "p \<in> set (buildWeeks m first cur []) \<Longrightarrow> tally p = getOr0 m (week p)"
  by (auto simp: buildWeeks_eq)

lemma buildWeeks_covers:
  assumes "first \<le> wk" "wk \<le> cur" "(wk - first) mod secondsPerWeek = 0"
  shows "\<lparr>week = wk, tally = getOr0 m wk\<rparr> \<in> set (buildWeeks m first cur [])"
proof -
  have W: "0 < secondsPerWeek" by (rule secondsPerWeek_pos)
  let ?k = "nat ((wk - first) div secondsPerWeek)"
  have nn: "0 \<le> (wk - first) div secondsPerWeek"
    using assms(1) W by (simp add: pos_imp_zdiv_nonneg_iff)
  have "(wk - first) div secondsPerWeek \<le> (cur - first) div secondsPerWeek"
    using assms(2) W by (simp add: zdiv_mono1)
  then have lt: "?k < weekCount first cur"
    using assms(1,2) nn by (simp add: weekCount_def)
  have "(wk - first) div secondsPerWeek * secondsPerWeek = wk - first"
    using assms(3) by (simp add: mod_eq_0_iff_dvd)
  then have eq: "first + int ?k * secondsPerWeek = wk"
    using nn by simp
  have "buildWeeks m first cur [] ! ?k \<in> set (buildWeeks m first cur [])"
    using lt by (simp add: buildWeeks_length)
  then show ?thesis
    using lt eq by (simp add: buildWeeks_nth)
qed

lemma buildWeeks_three:
  "buildWeeks m first (first + 2 * secondsPerWeek) [] =
     [\<lparr>week = first, tally = getOr0 m first\<rparr>,
      \<lparr>week = first + secondsPerWeek, tally = getOr0 m (first + secondsPerWeek)\<rparr>,
      \<lparr>week = first + 2 * secondsPerWeek, tally = getOr0 m (first + 2 * secondsPerWeek)\<rparr>]"
proof -
  have "weekCount first (first + 2 * secondsPerWeek) = 3"
    using secondsPerWeek_pos by (simp add: weekCount_def)
  moreover have "[0..<3] = [0, 1, 2]"
    by (simp add: upt_rec)
  ultimately show ?thesis
    by (simp add: buildWeeks_eq)
qed

lemma zero_fill_assembler:
  assumes "first mod 604800 = 0" "wk mod 604800 = 0" "first \<le> wk" "wk \<le> cur" "m wk = None"
  shows "\<lparr>week = wk, tally = 0\<rparr> \<in> set (buildWeeks m first cur [])"
    and "\<forall>p \<in> set (buildWeeks m first cur []). week p = wk \<longrightarrow> tally p = 0"
proof -
  have "(wk - first) mod secondsPerWeek = 0"
    using assms(1,2) by (simp add: secondsPerWeek_eq mod_diff_eq [symmetric] del: mod_diff_eq)
  from buildWeeks_covers [OF assms(3,4) this, of m] assms(5)
  show "\<lparr>week = wk, tally = 0\<rparr> \<in> set (buildWeeks m first cur [])"
    by (simp add: getOr0_def)
  show "\<forall>p \<in> set (buildWeeks m first cur []). week p = wk \<longrightarrow> tally p = 0"
    using assms(5) by (auto simp: buildWeeks_tally getOr0_def)
qed

subsection \<open>Week starts\<close>

lemma weekStartOf_nonneg: "0 \<le> t \<Longrightarrow> weekStartOf t = t - t mod secondsPerWeek"
proof (cases "t = 0")
  case True
  then show ?thesis by (simp add: weekStartOf_def jsRem_def)
next
  case False
  assume "0 \<le> t"
  with False have "sgn t = 1" "\<bar>t\<bar> = t" by simp_all
  then show ?thesis by (simp add: weekStartOf_def jsRem_def secondsPerWeek_def)
qed

lemma weekStartOf_neg: "t < 0 \<Longrightarrow> weekStartOf t = - ((- t) - (- t) mod secondsPerWeek)"
  by (simp add: weekStartOf_def jsRem_def secondsPerWeek_def)

lemma weekStartOf_dvd: "secondsPerWeek dvd weekStartOf t"
proof (cases "0 \<le> t")
  case True
  then show ?thesis
    by (simp add: weekStartOf_nonneg minus_mod_eq_mult_div)
next
  case False
  then show ?thesis
    by (simp add: weekStartOf_neg minus_mod_eq_mult_div)
qed

lemma weekStartOf_mod: "weekStartOf t mod secondsPerWeek = 0"
  using weekStartOf_dvd by (simp add: mod_eq_0_iff_dvd)

lemma weekStartOf_mono: "t \<le> u \<Longrightarrow> weekStartOf t \<le> weekStartOf u"
proof -
  assume le: "t \<le> u"
  have W: "0 < secondsPerWeek" by (rule secondsPerWeek_pos)
  have down: "x - x mod secondsPerWeek \<le> y - y mod secondsPerWeek" if "x \<le> y" for x y :: int
    using that W by (simp add: minus_mod_eq_mult_div zdiv_mono1)
  have nn: "0 \<le> x - x mod secondsPerWeek" if "0 \<le> x" for x :: int
    using that W by (simp add: minus_mod_eq_mult_div pos_imp_zdiv_nonneg_iff)
  consider "0 \<le> t" | "t < 0" "0 \<le> u" | "u < 0" using le by linarith
  then show ?thesis
  proof cases
    case 1
    then have "0 \<le> u" using le by simp
    then show ?thesis using 1 le by (simp add: weekStartOf_nonneg down)
  next
    case 2
    have "0 \<le> (- t) - (- t) mod secondsPerWeek" using 2 by (intro nn) simp
    moreover have "0 \<le> u - u mod secondsPerWeek" using 2 by (intro nn)
    ultimately show ?thesis using 2 by (simp add: weekStartOf_nonneg weekStartOf_neg)
  next
    case 3
    then have "t < 0" using le by simp
    moreover have "(- u) - (- u) mod secondsPerWeek \<le> (- t) - (- t) mod secondsPerWeek"
      using le by (intro down) simp
    ultimately show ?thesis using 3 by (simp add: weekStartOf_neg)
  qed
qed

lemma weekStartOf_shift:
  "0 \<le> t \<Longrightarrow> weekStartOf (t + int k * secondsPerWeek) = weekStartOf t + int k * secondsPerWeek"
proof -
  assume "0 \<le> t"
  moreover have "0 \<le> t + int k * secondsPerWeek"
    using \<open>0 \<le> t\<close> secondsPerWeek_pos by simp
  ultimately show ?thesis
    by (simp add: weekStartOf_nonneg)
qed

lemma weekCount_52:
  assumes "0 \<le> h" "nowMs = h + 52 * 7 * 24 * 60 * 60 * 1000"
  shows "weekCount (weekStartOf (h div 1000)) (weekStartOf (nowMs div 1000)) = 53"
proof -
  have "nowMs = h + (52 * secondsPerWeek) * 1000"
    using assms(2) by (simp add: secondsPerWeek_def)
  then have "nowMs div 1000 = h div 1000 + int 52 * secondsPerWeek"
    by simp
  moreover have "0 \<le> h div 1000"
    using assms(1) by (simp add: pos_imp_zdiv_nonneg_iff)
  ultimately have "weekStartOf (nowMs div 1000) = weekStartOf (h div 1000) + int 52 * secondsPerWeek"
    by (simp only: weekStartOf_shift)
  then show ?thesis
    using secondsPerWeek_pos by (simp add: weekCount_def)
qed

lemma fold_countDate:
  "getOr0 (fold countDate ds m) wk =
   getOr0 m wk + length (filter (\<lambda>d. weekStartOf (d div 1000) = wk) ds)"
  by (induction ds arbitrary: m) (auto simp: countDate_def getOr0_def Let_def)

lemma sorted_hd_least:
  fixes xs :: "int list"
  shows "sorted xs \<Longrightarrow> x \<in> set xs \<Longrightarrow> hd xs \<le> x"
  by (cases xs) auto

lemma hd_sort_least:
  fixes ds :: "int list"
  assumes "d \<in> set ds"
  shows "hd (sort ds) \<in> set ds \<and> hd (sort ds) \<le> d"
proof -
  have ne: "sort ds \<noteq> []"
    by (metis assms empty_iff empty_set set_sort)
  then have "hd (sort ds) \<in> set (sort ds)" by (rule hd_in_set)
  moreover have "hd (sort ds) \<le> d"
    using assms by (intro sorted_hd_least) simp_all
  ultimately show ?thesis by simp
qed

lemma count_sort:
  fixes ds :: "int list"
  shows "length (filter P (sort ds)) = length (filter P ds)"
  by (simp add: filter_sort)

subsection \<open>The pagination loop\<close>

lemma pageLoop_stop:
  "\<not> (hasMore \<and> page \<le> M) \<Longrightarrow> pageLoop f e M page hasMore d l = (l, Inr d)"
  by (subst pageLoop.simps) auto

lemma pageLoop_fail:
  "page \<le> M \<Longrightarrow> \<not> ok (f page) \<Longrightarrow>
   pageLoop f e M page True d l = (l @ [page], Inl (pageError (status (f page))))"
  by (subst pageLoop.simps) simp

lemma pageLoop_short:
  "page \<le> M \<Longrightarrow> ok (f page) \<Longrightarrow> pageSize (f page) < 100 \<Longrightarrow>
   pageLoop f e M page True d l = (l @ [page], Inr (fold e (pageItems (f page)) d))"
  by (subst pageLoop.simps)
     (auto simp: pageSize_def pageItems_def pageLoop_stop split: json_body.splits)

lemma pageLoop_full:
  "page \<le> M \<Longrightarrow> ok (f page) \<Longrightarrow> 100 \<le> pageSize (f page) \<Longrightarrow>
   pageLoop f e M page True d l =
   pageLoop f e M (Suc page) True (fold e (pageItems (f page)) d) (l @ [page])"
  by (subst pageLoop.simps)
     (auto simp: pageSize_def pageItems_def split: json_body.splits)

lemma pageLoop_run:
  "page \<le> Suc M \<Longrightarrow> \<exists>k. runFrom f e M page d l k"
proof (induction "Suc M - page" arbitrary: page d l)
  case 0
  then have "page = Suc M" by simp
  then have "runFrom f e M page d l 0"
    by (auto simp: runFrom_def pageLoop_stop)
  then show ?case ..
next
  case (Suc n)
  then have le: "page \<le> M" by simp
  show ?case
  proof (cases "ok (f page)")
    case False
    then have "runFrom f e M page d l 1"
      using le by (auto simp: runFrom_def pageLoop_fail)
    then show ?thesis ..
  next
    case True
    show ?thesis
    proof (cases "pageSize (f page) < 100")
      case short: True
      have "runFrom f e M page d l 1"
        using le True short by (auto simp: runFrom_def pageLoop_short dest: le_antisym)
      then show ?thesis ..
    next
      case False
      then have full: "100 \<le> pageSize (f page)" by simp
      let ?d = "fold e (pageItems (f page)) d"
      from Suc have "n = Suc M - Suc page" "Suc page \<le> Suc M" by simp_all
      from Suc.hyps(1) [OF this] obtain k where k: "runFrom f e M (Suc page) ?d (l @ [page]) k"
        by blast
      have eq: "pageLoop f e M page True d l = pageLoop f e M (Suc page) True ?d (l @ [page])"
        using le True full by (rule pageLoop_full)
      have upt: "[page..<page + Suc k] = page # [Suc page..<Suc page + k]"
        by (simp add: upt_conv_Cons del: upt_Suc)
      have pre: "\<forall>q. page \<le> q \<and> Suc q < page + Suc k \<longrightarrow> ok (f q) \<and> 100 \<le> pageSize (f q)"
      proof (intro allI impI)
        fix q assume q: "page \<le> q \<and> Suc q < page + Suc k"
        show "ok (f q) \<and> 100 \<le> pageSize (f q)"
        proof (cases "q = page")
          case True
          then show ?thesis using \<open>ok (f page)\<close> full by simp
        next
          case False
          then have "Suc page \<le> q \<and> Suc q < Suc page + k" using q by simp
          then show ?thesis using k by (simp add: runFrom_def)
        qed
      qed
      have oks: "(\<forall>q. Suc page \<le> q \<and> q < Suc page + k \<longrightarrow> ok (f q)) \<Longrightarrow>
                 (\<forall>q. page \<le> q \<and> q < page + Suc k \<longrightarrow> ok (f q))"
        using \<open>ok (f page)\<close> by (metis Suc_leI add_Suc add_Suc_right le_neq_implies_less)
      have "runFrom f e M page d l (Suc k)"
        unfolding runFrom_def eq upt
        using k pre oks unfolding runFrom_def
        by (auto split: sum.splits)
      then show ?thesis ..
    qed
  qed
qed

lemma pageLoop_from_1:
  "\<exists>k \<le> M.
     fst (pageLoop f e M 1 True [] []) = [1..<Suc k]
   \<and> (\<forall>p. 1 \<le> p \<and> p < k \<longrightarrow> ok (f p) \<and> 100 \<le> pageSize (f p))
   \<and> (k < M \<longrightarrow> 0 < k \<and> (\<not> ok (f k) \<or> pageSize (f k) < 100))
   \<and> (case snd (pageLoop f e M 1 True [] []) of
        Inl err \<Rightarrow> 0 < k \<and> \<not> ok (f k) \<and> err = pageError (status (f k))
      | Inr dates \<Rightarrow> (\<forall>p. 1 \<le> p \<and> p \<le> k \<longrightarrow> ok (f p)) \<and>
          dates = fold e (concat (map (\<lambda>p. pageItems (f p)) [1..<Suc k])) [])"
proof -
  from pageLoop_run [of 1 M f e "[]" "[]"] obtain k where k: "runFrom f e M 1 [] [] k"
    by auto
  then have "k \<le> M" by (simp add: runFrom_def)
  moreover have "fst (pageLoop f e M 1 True [] []) = [1..<Suc k]"
    using k by (simp add: runFrom_def)
  moreover have "\<forall>p. 1 \<le> p \<and> p < k \<longrightarrow> ok (f p) \<and> 100 \<le> pageSize (f p)"
    using k by (simp add: runFrom_def)
  moreover have "k < M \<longrightarrow> 0 < k \<and> (\<not> ok (f k) \<or> pageSize (f k) < 100)"
    using k by (auto simp: runFrom_def)
  moreover have "case snd (pageLoop f e M 1 True [] []) of
        Inl err \<Rightarrow> 0 < k \<and> \<not> ok (f k) \<and> err = pageError (status (f k))
      | Inr dates \<Rightarrow> (\<forall>p. 1 \<le> p \<and> p \<le> k \<longrightarrow> ok (f p)) \<and>
          dates = fold e (concat (map (\<lambda>p. pageItems (f p)) [1..<Suc k])) []"
    using k by (auto simp: runFrom_def less_Suc_eq_le split: sum.splits)
  ultimately show ?thesis by blast
qed

lemma pageLoop_failed_page:
  assumes "p \<in> set (fst (pageLoop f e M 1 True [] []))" "\<not> ok (f p)"
  shows "snd (pageLoop f e M 1 True [] []) = Inl (pageError (status (f p)))"
proof -
  from pageLoop_from_1 [of M f e] obtain k where
    req: "fst (pageLoop f e M 1 True [] []) = [1..<Suc k]" and
    full: "\<forall>p. 1 \<le> p \<and> p < k \<longrightarrow> ok (f p) \<and> 100 \<le> pageSize (f p)" and
    out: "case snd (pageLoop f e M 1 True [] []) of
        Inl err \<Rightarrow> 0 < k \<and> \<not> ok (f k) \<and> err = pageError (status (f k))
      | Inr dates \<Rightarrow> (\<forall>p. 1 \<le> p \<and> p \<le> k \<longrightarrow> ok (f p)) \<and>
          dates = fold e (concat (map (\<lambda>p. pageItems (f p)) [1..<Suc k])) []"
    by blast
  from assms(1) req have p: "1 \<le> p" "p \<le> k" by auto
  with full assms(2) have "p = k" by (metis le_neq_implies_less)
  with out p assms(2) show ?thesis
    by (cases "snd (pageLoop f e M 1 True [] [])") auto
qed

lemma fold_noop: "\<forall>x \<in> set xs. \<forall>d. e x d = d \<Longrightarrow> fold e xs d = d"
  by (induction xs arbitrary: d) simp_all

lemma pageLoop_no_dates:
  assumes oks: "\<forall>p. ok (f p)"
    and none: "\<forall>p. \<forall>x \<in> set (pageItems (f p)). \<forall>d. e x d = d"
  shows "snd (pageLoop f e M 1 True [] []) = Inr []"
proof -
  from pageLoop_from_1 [of M f e] obtain k where
    out: "case snd (pageLoop f e M 1 True [] []) of
        Inl err \<Rightarrow> 0 < k \<and> \<not> ok (f k) \<and> err = pageError (status (f k))
      | Inr dates \<Rightarrow> (\<forall>p. 1 \<le> p \<and> p \<le> k \<longrightarrow> ok (f p)) \<and>
          dates = fold e (concat (map (\<lambda>p. pageItems (f p)) [1..<Suc k])) []"
    by blast
  have "fold e (concat (map (\<lambda>p. pageItems (f p)) [1..<Suc k])) [] = []"
    using none by (intro fold_noop) auto
  with out oks show ?thesis
    by (cases "snd (pageLoop f e M 1 True [] [])") auto
qed

lemma pageLoop_cong:
  assumes st: "\<forall>p. status (g p) = status (f p)"
    and sz: "\<forall>p. pageSize (g p) = pageSize (f p)"
    and fo: "\<forall>p d. fold e (pageItems (g p)) d = fold e (pageItems (f p)) d"
  shows "pageLoop g e M page True d l = pageLoop f e M page True d l"
proof (induction "Suc M - page" arbitrary: page d l)
  case 0
  then have "\<not> page \<le> M" by simp
  then show ?case by (simp add: pageLoop_stop)
next
  case (Suc n)
  then have le: "page \<le> M" by simp
  have okeq: "ok (g page) = ok (f page)"
    using st by (simp add: ok_def)
  show ?case
  proof (cases "ok (f page)")
    case False
    then show ?thesis
      using le okeq st by (simp add: pageLoop_fail)
  next
    case True
    show ?thesis
    proof (cases "pageSize (f page) < 100")
      case short: True
      then show ?thesis
        using le True okeq sz fo by (simp add: pageLoop_short)
    next
      case False
      then have full: "100 \<le> pageSize (f page)" "100 \<le> pageSize (g page)"
        using sz by simp_all
      from Suc have "n = Suc M - Suc page" by simp
      from Suc.hyps(1) [OF this]
      have "pageLoop g e M (Suc page) True (fold e (pageItems (f page)) d) (l @ [page]) =
            pageLoop f e M (Suc page) True (fold e (pageItems (f page)) d) (l @ [page])" .
      then show ?thesis
        using le True okeq full fo by (simp add: pageLoop_full)
    qed
  qed
qed

lemma status_mapItems: "status (mapItems r x) = status x"
  by (simp add: mapItems_def)

lemma pageItems_mapItems: "pageItems (mapItems r x) = map r (pageItems x)"
  by (cases "body x") (simp_all add: mapItems_def pageItems_def)

lemma pageLoop_mapItems:
  assumes "\<forall>x. e (r x) = e x"
  shows "pageLoop (\<lambda>p. mapItems r (f p)) e M 1 True [] [] = pageLoop f e M 1 True [] []"
proof (rule pageLoop_cong)
  show "\<forall>p. status (mapItems r (f p)) = status (f p)"
    by (simp add: status_mapItems)
  show "\<forall>p. pageSize (mapItems r (f p)) = pageSize (f p)"
    by (simp add: pageSize_def pageItems_mapItems)
  show "\<forall>p d. fold e (pageItems (mapItems r (f p))) d = fold e (pageItems (f p)) d"
    using assms by (simp add: pageItems_mapItems fold_map comp_def)
qed

lemma ok_pagesOf [simp]: "ok (pagesOf pages p)"
  by (simp add: ok_def pagesOf_def)

lemma pageItems_pagesOf:
  "pageItems (pagesOf pages p) = (if 1 \<le> p \<and> p \<le> length pages then pages ! (p - 1) else [])"
  by (simp add: pageItems_def pagesOf_def)

lemma pageItems_pagesOf_single:
  "pageItems (pagesOf [xs] p) = (if p = 1 then xs else [])"
  by (auto simp: pageItems_pagesOf)

subsection \<open>The callbacks\<close>

lemma eachStar_none: "starred_at s = None \<Longrightarrow> eachStar s d = d"
  by (simp add: eachStar_def)

lemma eachIssue_old:
  "notPullRequest i \<longrightarrow> (\<forall>t. created_at i = Some t \<longrightarrow> t < h) \<Longrightarrow> eachIssue h i d = d"
  by (auto simp: eachIssue_def split: option.splits)

lemma eachClosed_old:
  "notPullRequest i \<longrightarrow> (\<forall>t. closed_at i = Some t \<longrightarrow> t < h) \<Longrightarrow> eachClosed h i d = d"
  by (auto simp: eachClosed_def split: option.splits)

lemma eachIssue_pull_request: "\<not> notPullRequest i \<Longrightarrow> eachIssue h i d = d"
  by (simp add: eachIssue_def)

lemma eachClosed_pull_request: "\<not> notPullRequest i \<Longrightarrow> eachClosed h i d = d"
  by (simp add: eachClosed_def)

subsection \<open>The operations in terms of the loops\<close>

lemma fetchStarHistory_fst:
  "fst (fetchStarHistory f nowMs M) = fst (pageLoop f eachStar M 1 True [] [])"
  by (cases "pageLoop f eachStar M 1 True [] []")
     (simp add: fetchStarHistory_def Let_def split: sum.splits)

lemma fetchStarHistory_Inl:
  "snd (pageLoop f eachStar M 1 True [] []) = Inl e \<Longrightarrow> snd (fetchStarHistory f nowMs M) = Inl e"
  by (cases "pageLoop f eachStar M 1 True [] []") (simp add: fetchStarHistory_def)

lemma fetchStarHistory_Inr:
  "snd (pageLoop f eachStar M 1 True [] []) = Inr ds \<Longrightarrow>
   snd (fetchStarHistory f nowMs M) =
     Inr (if ds = [] then []
          else buildWeeks (fold countDate (sort ds) Map.empty)
                 (weekStartOf (hd (sort ds) div 1000)) (weekStartOf (nowMs div 1000)) [])"
  by (cases "pageLoop f eachStar M 1 True [] []") (simp add: fetchStarHistory_def Let_def)

lemma fetchStarHistory_series:
  assumes "snd (fetchStarHistory f nowMs M) = Inr s"
  shows "s = [] \<or> (\<exists>m t. s = buildWeeks m (weekStartOf t) (weekStartOf (nowMs div 1000)) [])"
proof (cases "snd (pageLoop f eachStar M 1 True [] [])")
  case (Inl e)
  then show ?thesis using assms by (simp add: fetchStarHistory_Inl)
next
  case (Inr ds)
  from fetchStarHistory_Inr [OF this, of nowMs] assms show ?thesis
    by (auto split: if_splits)
qed

lemma fetchStarHistory_eval:
  "pageLoop f eachStar M 1 True [] [] = (req, Inr ds) \<Longrightarrow>
   fetchStarHistory f nowMs M =
     (req, Inr (if ds = [] then []
          else buildWeeks (fold countDate (sort ds) Map.empty)
                 (weekStartOf (hd (sort ds) div 1000)) (weekStartOf (nowMs div 1000)) []))"
  by (simp add: fetchStarHistory_def Let_def)

lemma fetchIssuesOverTime_fst:
  "fst (fetchIssuesOverTime f h nowMs M) = fst (pageLoop f (eachIssue h) M 1 True [] [])"
  by (cases "pageLoop f (eachIssue h) M 1 True [] []")
     (simp add: fetchIssuesOverTime_def split: sum.splits)

lemma fetchIssuesOverTime_Inl:
  "snd (pageLoop f (eachIssue h) M 1 True [] []) = Inl e \<Longrightarrow>
   snd (fetchIssuesOverTime f h nowMs M) = Inl e"
  by (cases "pageLoop f (eachIssue h) M 1 True [] []") (simp add: fetchIssuesOverTime_def)

lemma fetchIssuesOverTime_Inr:
  "snd (pageLoop f (eachIssue h) M 1 True [] []) = Inr ds \<Longrightarrow>
   snd (fetchIssuesOverTime f h nowMs M) = Inr (issueSeries h nowMs ds)"
  by (cases "pageLoop f (eachIssue h) M 1 True [] []") (simp add: fetchIssuesOverTime_def)

lemma fetchIssuesClosedOverTime_fst:
  "fst (fetchIssuesClosedOverTime f h nowMs M) = fst (pageLoop f (eachClosed h) M 1 True [] [])"
  by (cases "pageLoop f (eachClosed h) M 1 True [] []")
     (simp add: fetchIssuesClosedOverTime_def split: sum.splits)

lemma fetchIssuesClosedOverTime_Inl:
  "snd (pageLoop f (eachClosed h) M 1 True [] []) = Inl e \<Longrightarrow>
   snd (fetchIssuesClosedOverTime f h nowMs M) = Inl e"
  by (cases "pageLoop f (eachClosed h) M 1 True [] []") (simp add: fetchIssuesClosedOverTime_def)

lemma fetchIssuesClosedOverTime_Inr:
  "snd (pageLoop f (eachClosed h) M 1 True [] []) = Inr ds \<Longrightarrow>
   snd (fetchIssuesClosedOverTime f h nowMs M) = Inr (issueSeries h nowMs ds)"
  by (cases "pageLoop f (eachClosed h) M 1 True [] []") (simp add: fetchIssuesClosedOverTime_def)

lemma issueSeries_eq:
  "issueSeries h nowMs ds =
     buildWeeks (fold countDate ds Map.empty) (weekStartOf (h div 1000)) (weekStartOf (nowMs div 1000)) []"
  by (simp add: issueSeries_def Let_def)

lemma issueSeries_Nil:
  "issueSeries h nowMs [] =
     map (\<lambda>k. \<lparr>week = weekStartOf (h div 1000) + int k * 604800, tally = 0\<rparr>)
       [0..<weekCount (weekStartOf (h div 1000)) (weekStartOf (nowMs div 1000))]"
  by (simp add: issueSeries_eq buildWeeks_eq getOr0_def secondsPerWeek_eq)

lemma fetchIssuesOverTime_series:
  assumes "snd (fetchIssuesOverTime f h nowMs M) = Inr s"
  shows "\<exists>ds. s = issueSeries h nowMs ds"
proof (cases "snd (pageLoop f (eachIssue h) M 1 True [] [])")
  case (Inl e)
  then show ?thesis using assms by (simp add: fetchIssuesOverTime_Inl)
next
  case (Inr ds)
  from fetchIssuesOverTime_Inr [OF this, of nowMs] assms show ?thesis by auto
qed

lemma fetchIssuesClosedOverTime_series:
  assumes "snd (fetchIssuesClosedOverTime f h nowMs M) = Inr s"
  shows "\<exists>ds. s = issueSeries h nowMs ds"
proof (cases "snd (pageLoop f (eachClosed h) M 1 True [] [])")
  case (Inl e)
  then show ?thesis using assms by (simp add: fetchIssuesClosedOverTime_Inl)
next
  case (Inr ds)
  from fetchIssuesClosedOverTime_Inr [OF this, of nowMs] assms show ?thesis by auto
qed

lemma fetchIssuesOverTime_eval:
  "pageLoop f (eachIssue h) M 1 True [] [] = (req, Inr ds) \<Longrightarrow>
   fetchIssuesOverTime f h nowMs M = (req, Inr (issueSeries h nowMs ds))"
  by (simp add: fetchIssuesOverTime_def)

lemma fetchIssuesClosedOverTime_eval:
  "pageLoop f (eachClosed h) M 1 True [] [] = (req, Inr ds) \<Longrightarrow>
   fetchIssuesClosedOverTime f h nowMs M = (req, Inr (issueSeries h nowMs ds))"
  by (simp add: fetchIssuesClosedOverTime_def)

lemma star_scenario:
  assumes loop: "pageLoop fs eachStar M 1 True [] [] = (req, Inr ds)"
    and only: "\<forall>d \<in> set ds. weekStartOf (d div 1000) = N * 604800 \<or>
                 weekStartOf (d div 1000) = (N + 2) * 604800"
    and inN: "\<exists>d \<in> set ds. weekStartOf (d div 1000) = N * 604800"
    and now: "weekStartOf (nowMs div 1000) = (N + 2) * 604800"
  shows "fetchStarHistory fs nowMs M =
     (req, Inr [\<lparr>week = N * 604800,
                 tally = length (filter (\<lambda>d. weekStartOf (d div 1000) = N * 604800) ds)\<rparr>,
                \<lparr>week = (N + 1) * 604800, tally = 0\<rparr>,
                \<lparr>week = (N + 2) * 604800,
                 tally = length (filter (\<lambda>d. weekStartOf (d div 1000) = (N + 2) * 604800) ds)\<rparr>])"
proof -
  from inN obtain d0 where d0: "d0 \<in> set ds" "weekStartOf (d0 div 1000) = N * 604800"
    by blast
  then have ne: "ds \<noteq> []" by auto
  from hd_sort_least [OF d0(1)] have h: "hd (sort ds) \<in> set ds" "hd (sort ds) \<le> d0"
    by simp_all
  from h(2) have "hd (sort ds) div 1000 \<le> d0 div 1000"
    by (simp add: zdiv_mono1)
  then have "weekStartOf (hd (sort ds) div 1000) \<le> N * 604800"
    using weekStartOf_mono [of "hd (sort ds) div 1000" "d0 div 1000"] d0(2) by simp
  moreover from only h(1) have "weekStartOf (hd (sort ds) div 1000) = N * 604800 \<or>
      weekStartOf (hd (sort ds) div 1000) = (N + 2) * 604800"
    by blast
  ultimately have first: "weekStartOf (hd (sort ds) div 1000) = N * 604800"
    by auto
  have cur: "weekStartOf (nowMs div 1000) = N * 604800 + 2 * secondsPerWeek"
    using now by (simp add: secondsPerWeek_eq algebra_simps)
  let ?m = "fold countDate (sort ds) Map.empty"
  have cnt: "getOr0 ?m wk = length (filter (\<lambda>d. weekStartOf (d div 1000) = wk) ds)" for wk
  proof -
    have "getOr0 ?m wk = getOr0 Map.empty wk + length (filter (\<lambda>d. weekStartOf (d div 1000) = wk) (sort ds))"
      by (rule fold_countDate)
    then show ?thesis
      by (simp add: count_sort getOr0_def)
  qed
  have mid: "filter (\<lambda>d. weekStartOf (d div 1000) = N * 604800 + 604800) ds = []"
    using only by (auto simp: filter_empty_conv)
  from fetchStarHistory_eval [OF loop, of nowMs]
  have "fetchStarHistory fs nowMs M =
      (req, Inr (buildWeeks ?m (N * 604800) (N * 604800 + 2 * secondsPerWeek) []))"
    using ne first cur by simp
  also have "buildWeeks ?m (N * 604800) (N * 604800 + 2 * secondsPerWeek) [] =
     [\<lparr>week = N * 604800, tally = getOr0 ?m (N * 604800)\<rparr>,
      \<lparr>week = N * 604800 + secondsPerWeek, tally = getOr0 ?m (N * 604800 + secondsPerWeek)\<rparr>,
      \<lparr>week = N * 604800 + 2 * secondsPerWeek, tally = getOr0 ?m (N * 604800 + 2 * secondsPerWeek)\<rparr>]"
    by (rule buildWeeks_three)
  finally show ?thesis
    using mid by (simp add: cnt secondsPerWeek_eq algebra_simps)
qed

subsection \<open>The statistics endpoints\<close>

lemma fetchCommitActivity_nonempty:
  "fetchCommitActivity r = Inr s \<Longrightarrow> s \<noteq> []"
  by (auto simp: fetchCommitActivity_def split: if_splits json_body.splits)

lemma fold_eachWeekEntry_fst:
  "set (fst (fold eachWeekEntry es st)) = set (fst st) \<union> entry_w ` set es"
  by (induction es arbitrary: st) (auto simp: eachWeekEntry_def setAdd_def split: prod.splits)

lemma fold_eachContributor_fst:
  "set (fst (fold eachContributor ds st)) = set (fst st) \<union> (\<Union>k \<in> set ds. entry_w ` set (weeks k))"
  by (induction ds arbitrary: st) (auto simp: eachContributor_def fold_eachWeekEntry_fst)

lemma map_week_contributorWeeks:
  "map week (contributorWeeks data) = sort (fst (fold eachContributor data ([], Map.empty)))"
  by (simp add: contributorWeeks_def comp_def split: prod.splits)

lemma set_week_contributorWeeks:
  "set (map week (contributorWeeks data)) = (\<Union>k \<in> set data. entry_w ` set (weeks k))"
  by (simp add: map_week_contributorWeeks fold_eachContributor_fst)

lemma contributorWeeks_empty_iff:
  "contributorWeeks data = [] \<longleftrightarrow> (\<forall>k \<in> set data. weeks k = [])"
proof -
  have "contributorWeeks data = [] \<longleftrightarrow> set (map week (contributorWeeks data)) = {}"
    by simp
  also have "\<dots> \<longleftrightarrow> (\<forall>k \<in> set data. weeks k = [])"
    unfolding set_week_contributorWeeks by auto
  finally show ?thesis .
qed

lemma setAdd_distinct: "distinct xs \<Longrightarrow> distinct (setAdd x xs)"
  by (simp add: setAdd_def)

lemma fold_eachWeekEntry_distinct:
  "distinct (fst st) \<Longrightarrow> distinct (fst (fold eachWeekEntry es st))"
  by (induction es arbitrary: st) (auto simp: eachWeekEntry_def setAdd_distinct split: prod.splits)

lemma fold_eachContributor_distinct:
  "distinct (fst st) \<Longrightarrow> distinct (fst (fold eachContributor ds st))"
  by (induction ds arbitrary: st) (auto simp: eachContributor_def fold_eachWeekEntry_distinct)

lemma fold_eachWeekEntry_snd:
  "getOr0 (snd (fold eachWeekEntry es st)) wk =
   getOr0 (snd st) wk + length (filter (\<lambda>e. entry_w e = wk \<and> 0 < entry_c e) es)"
  by (induction es arbitrary: st) (auto simp: eachWeekEntry_def getOr0_def split: prod.splits)

lemma fold_eachContributor_snd:
  "getOr0 (snd (fold eachContributor ds st)) wk =
   getOr0 (snd st) wk + length (filter (\<lambda>e. entry_w e = wk \<and> 0 < entry_c e) (concat (map weeks ds)))"
  by (induction ds arbitrary: st) (auto simp: eachContributor_def fold_eachWeekEntry_snd)

lemma contributorWeeks_tally:
  assumes "p \<in> set (contributorWeeks data)"
  shows "tally p = length (filter (\<lambda>e. entry_w e = week p \<and> 0 < entry_c e) (concat (map weeks data)))"
proof -
  obtain allWeeks m where st: "fold eachContributor data ([], Map.empty) = (allWeeks, m)"
    by (cases "fold eachContributor data ([], Map.empty)") 
  from assms st have "tally p = getOr0 m (week p)"
    by (auto simp: contributorWeeks_def)
  also have "\<dots> = getOr0 (snd (fold eachContributor data ([], Map.empty))) (week p)"
    by (simp add: st)
  also have "\<dots> = length (filter (\<lambda>e. entry_w e = week p \<and> 0 < entry_c e) (concat (map weeks data)))"
    using fold_eachContributor_snd [of data "([], Map.empty)" "week p"]
    by (simp add: getOr0_def)
  finally show ?thesis .
qed

lemma contributorWeeks_sorted: "sorted (map week (contributorWeeks data))"
  by (simp add: map_week_contributorWeeks)

lemma contributorWeeks_distinct: "distinct (map week (contributorWeeks data))"
  by (simp add: map_week_contributorWeeks fold_eachContributor_distinct)

lemma filter_key_le_one:
  "distinct (map entry_w es) \<Longrightarrow>
   length (filter (\<lambda>e. entry_w e = wk \<and> 0 < entry_c e) es) =
   (if \<exists>e \<in> set es. entry_w e = wk \<and> 0 < entry_c e then 1 else 0)"
proof (induction es)
  case Nil
  then show ?case by simp
next
  case (Cons a es)
  then show ?case by (auto simp: image_iff)
qed

lemma entries_count_records:
  "\<forall>k \<in> set ds. distinct (map entry_w (weeks k)) \<Longrightarrow>
   length (filter (\<lambda>e. entry_w e = wk \<and> 0 < entry_c e) (concat (map weeks ds))) =
   length (filter (activeIn wk) ds)"
  by (induction ds) (simp_all add: filter_key_le_one activeIn_def)

lemma spec_count_records:
  "distinct (map author ds) \<Longrightarrow> spec_activeContributors ds wk = length (filter (activeIn wk) ds)"
proof -
  assume "distinct (map author ds)"
  then have "distinct (map author (filter (activeIn wk) ds))"
    by (rule distinct_map_filter)
  then show ?thesis
    by (simp add: spec_activeContributors_def distinct_remdups_id)
qed

lemma strictly_increasing_nth:
  fixes xs :: "int list"
  assumes "sorted xs" "distinct xs" "Suc i < length xs"
  shows "xs ! i < xs ! Suc i"
proof -
  have "xs ! i \<le> xs ! Suc i"
    using assms by (simp add: sorted_iff_nth_Suc)
  moreover have "xs ! i \<noteq> xs ! Suc i"
    using assms by (simp add: nth_eq_iff_index_eq)
  ultimately show ?thesis by simp
qed

subsection \<open>Runs on concrete responses\<close>

lemma pageLoop_no_failure:
  assumes "\<forall>p. ok (f p)"
  shows "\<exists>dates. snd (pageLoop f e M 1 True [] []) = Inr dates"
proof -
  from pageLoop_from_1 [of M f e] obtain k where
    "case snd (pageLoop f e M 1 True [] []) of
        Inl err \<Rightarrow> 0 < k \<and> \<not> ok (f k) \<and> err = pageError (status (f k))
      | Inr dates \<Rightarrow> (\<forall>p. 1 \<le> p \<and> p \<le> k \<longrightarrow> ok (f p)) \<and>
          dates = fold e (concat (map (\<lambda>p. pageItems (f p)) [1..<Suc k])) []"
    by blast
  with assms show ?thesis
    by (cases "snd (pageLoop f e M 1 True [] [])") auto
qed

lemma fold_eachStar_replicate:
  "fold eachStar (replicate n \<lparr>starred_at = Some t\<rparr>) d = d @ replicate n t"
  by (induction n arbitrary: d)
     (simp_all add: eachStar_def replicate_app_Cons_same del: fold_replicate)

lemma sort_replicate:
  fixes t :: int
  shows "sort (replicate n t) = replicate n t"
  by (induction n) (simp_all add: insort_is_Cons)

lemma stars_example:
  "fetchStarHistory
     (pagesOf [[\<lparr>starred_at = Some 604800000000\<rparr>, \<lparr>starred_at = Some 606009600000\<rparr>]])
     606009600000 10
   = ([1], Inr [\<lparr>week = 604800000, tally = 1\<rparr>, \<lparr>week = 605404800, tally = 0\<rparr>,
                \<lparr>week = 606009600, tally = 1\<rparr>])"
proof -
  have "pageLoop (pagesOf [[\<lparr>starred_at = Some 604800000000\<rparr>, \<lparr>starred_at = Some 606009600000\<rparr>]])
    eachStar 10 1 True [] [] = ([1], Inr [604800000000, 606009600000])"
    by (simp add: pageLoop_short pageSize_def pageItems_pagesOf eachStar_def)
  from fetchStarHistory_eval [OF this] show ?thesis
    by (simp add: Let_def weekStartOf_def jsRem_def secondsPerWeek_def
      countDate_def getOr0_def buildWeeks.simps)
qed

lemma issues_example:
  "fetchIssuesOverTime
     (pagesOf [[\<lparr>created_at = Some 1699900000000, closed_at = Some 1699950000000, pull_request = None\<rparr>,
                \<lparr>created_at = Some 1699900000000, closed_at = Some 1699950000000, pull_request = Some JObj\<rparr>]])
     1699000000000 1700000000000 10
   = ([1], Inr [\<lparr>week = 1698883200, tally = 0\<rparr>, \<lparr>week = 1699488000, tally = 1\<rparr>])"
proof -
  have "pageLoop (pagesOf [[\<lparr>created_at = Some 1699900000000, closed_at = Some 1699950000000, pull_request = None\<rparr>,
                \<lparr>created_at = Some 1699900000000, closed_at = Some 1699950000000, pull_request = Some JObj\<rparr>]])
    (eachIssue 1699000000000) 10 1 True [] [] = ([1], Inr [1699900000000])"
    by (simp add: pageLoop_short pageSize_def pageItems_pagesOf eachIssue_def notPullRequest_def)
  from fetchIssuesOverTime_eval [OF this] show ?thesis
    by (simp add: issueSeries_def Let_def weekStartOf_def jsRem_def secondsPerWeek_def
      countDate_def getOr0_def buildWeeks.simps)
qed

lemma closed_example:
  "fetchIssuesClosedOverTime
     (pagesOf [[\<lparr>created_at = Some 1699900000000, closed_at = Some 1699950000000, pull_request = None\<rparr>,
                \<lparr>created_at = Some 1699900000000, closed_at = Some 1699950000000, pull_request = Some JObj\<rparr>]])
     1699000000000 1700000000000 10
   = ([1], Inr [\<lparr>week = 1698883200, tally = 0\<rparr>, \<lparr>week = 1699488000, tally = 1\<rparr>])"
proof -
  have "pageLoop (pagesOf [[\<lparr>created_at = Some 1699900000000, closed_at = Some 1699950000000, pull_request = None\<rparr>,
                \<lparr>created_at = Some 1699900000000, closed_at = Some 1699950000000, pull_request = Some JObj\<rparr>]])
    (eachClosed 1699000000000) 10 1 True [] [] = ([1], Inr [1699950000000])"
    by (simp add: pageLoop_short pageSize_def pageItems_pagesOf eachClosed_def notPullRequest_def)
  from fetchIssuesClosedOverTime_eval [OF this] show ?thesis
    by (simp add: issueSeries_def Let_def weekStartOf_def jsRem_def secondsPerWeek_def
      countDate_def getOr0_def buildWeeks.simps)
qed

lemma contributors_example:
  "fetchContributorsOverTime
     \<lparr>status = 200, body = Array
        [\<lparr>author = ''a'', weeks = [\<lparr>entry_w = 604800000, entry_c = 3\<rparr>, \<lparr>entry_w = 606009600, entry_c = 1\<rparr>]\<rparr>]\<rparr>
   = Inr [\<lparr>week = 604800000, tally = 1\<rparr>, \<lparr>week = 606009600, tally = 1\<rparr>]"
  by (simp add: fetchContributorsOverTime_def ok_def contributorWeeks_def eachContributor_def
      eachWeekEntry_def setAdd_def getOr0_def)

subsection \<open>The whole run of the loop and of the operations\<close>

lemma lastPage_unique:
  assumes "lastPage f M k" "lastPage f M j"
  shows "j = k"
proof (rule ccontr)
  assume "j \<noteq> k"
  then consider "j < k" | "k < j" by arith
  then show False
  proof cases
    case 1
    with assms(1) have "j < M" by (simp add: lastPage_def)
    with assms(2) have j: "0 < j" "\<not> ok (f j) \<or> pageSize (f j) < 100"
      by (simp_all add: lastPage_def)
    from assms(1) 1 j(1) have "ok (f j) \<and> 100 \<le> pageSize (f j)"
      by (simp add: lastPage_def)
    with j(2) show False by auto
  next
    case 2
    with assms(2) have "k < M" by (simp add: lastPage_def)
    with assms(1) have k: "0 < k" "\<not> ok (f k) \<or> pageSize (f k) < 100"
      by (simp_all add: lastPage_def)
    from assms(2) 2 k(1) have "ok (f k) \<and> 100 \<le> pageSize (f k)"
      by (simp add: lastPage_def)
    with k(2) show False by auto
  qed
qed

lemma pageLoop_total:
  "\<exists>k. lastPage f M k \<and>
     pageLoop f e M 1 True [] [] =
       ([1..<Suc k],
        if 0 < k \<and> \<not> ok (f k) then Inl (pageError (status (f k)))
        else Inr (fold e (pagesUpTo f k) []))"
proof -
  from pageLoop_from_1 [of M f e] obtain k where k: "k \<le> M"
    "fst (pageLoop f e M 1 True [] []) = [1..<Suc k]"
    "\<forall>p. 1 \<le> p \<and> p < k \<longrightarrow> ok (f p) \<and> 100 \<le> pageSize (f p)"
    "k < M \<longrightarrow> 0 < k \<and> (\<not> ok (f k) \<or> pageSize (f k) < 100)"
    "case snd (pageLoop f e M 1 True [] []) of
        Inl err \<Rightarrow> 0 < k \<and> \<not> ok (f k) \<and> err = pageError (status (f k))
      | Inr dates \<Rightarrow> (\<forall>p. 1 \<le> p \<and> p \<le> k \<longrightarrow> ok (f p)) \<and>
          dates = fold e (concat (map (\<lambda>p. pageItems (f p)) [1..<Suc k])) []"
    by blast
  have lp: "lastPage f M k"
    using k(1,3,4) by (simp only: lastPage_def simp_thms)
  have "snd (pageLoop f e M 1 True [] []) =
      (if 0 < k \<and> \<not> ok (f k) then Inl (pageError (status (f k)))
       else Inr (fold e (pagesUpTo f k) []))"
  proof (cases "snd (pageLoop f e M 1 True [] [])")
    case (Inl err)
    with k(5) have "0 < k \<and> \<not> ok (f k) \<and> err = pageError (status (f k))"
      by simp
    with Inl show ?thesis by simp
  next
    case (Inr dates)
    with k(5) have d: "(\<forall>p. 1 \<le> p \<and> p \<le> k \<longrightarrow> ok (f p)) \<and>
          dates = fold e (concat (map (\<lambda>p. pageItems (f p)) [1..<Suc k])) []"
      by simp
    then have "\<not> (0 < k \<and> \<not> ok (f k))"
      by (metis One_nat_def Suc_leI le_refl)
    with Inr d show ?thesis by (simp add: pagesUpTo_def)
  qed
  with k(2) have "pageLoop f e M 1 True [] [] =
       ([1..<Suc k],
        if 0 < k \<and> \<not> ok (f k) then Inl (pageError (status (f k)))
        else Inr (fold e (pagesUpTo f k) []))"
    by (simp only: prod_eq_iff fst_conv snd_conv simp_thms)
  with lp show ?thesis by blast
qed

lemma fold_eachStar:
  "fold eachStar xs d = d @ map (the \<circ> starred_at) (filter (\<lambda>s. starred_at s \<noteq> None) xs)"
  by (induction xs arbitrary: d) (auto simp: eachStar_def split: option.splits)

lemma fold_eachIssue:
  "fold (eachIssue h) xs d =
     d @ map (the \<circ> created_at)
           (filter (\<lambda>i. notPullRequest i \<and> created_at i \<noteq> None \<and> h \<le> the (created_at i)) xs)"
  by (induction xs arbitrary: d) (auto simp: eachIssue_def split: option.splits)

lemma fold_eachClosed:
  "fold (eachClosed h) xs d =
     d @ map (the \<circ> closed_at)
           (filter (\<lambda>i. notPullRequest i \<and> closed_at i \<noteq> None \<and> h \<le> the (closed_at i)) xs)"
  by (induction xs arbitrary: d) (auto simp: eachClosed_def split: option.splits)

lemma fetchStarHistory_total:
  "\<exists>k. lastPage fs M k \<and>
     fetchStarHistory fs nowMs M =
       ([1..<Suc k],
        if 0 < k \<and> \<not> ok (fs k) then Inl (pageError (status (fs k)))
        else Inr (let starDates = fold eachStar (pagesUpTo fs k) [] in
                  if starDates = [] then []
                  else buildWeeks (fold countDate (sort starDates) Map.empty)
                         (weekStartOf (hd (sort starDates) div 1000))
                         (weekStartOf (nowMs div 1000)) []))"
proof -
  from pageLoop_total [of fs M eachStar] obtain k where k: "lastPage fs M k"
    "pageLoop fs eachStar M 1 True [] [] =
       ([1..<Suc k],
        if 0 < k \<and> \<not> ok (fs k) then Inl (pageError (status (fs k)))
        else Inr (fold eachStar (pagesUpTo fs k) []))"
    by blast
  have "fetchStarHistory fs nowMs M =
       ([1..<Suc k],
        if 0 < k \<and> \<not> ok (fs k) then Inl (pageError (status (fs k)))
        else Inr (let starDates = fold eachStar (pagesUpTo fs k) [] in
                  if starDates = [] then []
                  else buildWeeks (fold countDate (sort starDates) Map.empty)
                         (weekStartOf (hd (sort starDates) div 1000))
                         (weekStartOf (nowMs div 1000)) []))"
  proof (cases "0 < k \<and> \<not> ok (fs k)")
    case True
    with k(2) have "pageLoop fs eachStar M 1 True [] [] = ([1..<Suc k], Inl (pageError (status (fs k))))"
      by simp
    then have "fetchStarHistory fs nowMs M = ([1..<Suc k], Inl (pageError (status (fs k))))"
      by (simp add: fetchStarHistory_def)
    with True show ?thesis by simp
  next
    case False
    with k(2) have "pageLoop fs eachStar M 1 True [] [] = ([1..<Suc k], Inr (fold eachStar (pagesUpTo fs k) []))"
      by simp
    from fetchStarHistory_eval [OF this, of nowMs] False show ?thesis
      by (simp add: Let_def)
  qed
  with k(1) show ?thesis by blast
qed

lemma fetchIssuesOverTime_total:
  "\<exists>k. lastPage fi M k \<and>
     fetchIssuesOverTime fi h nowMs M =
       ([1..<Suc k],
        if 0 < k \<and> \<not> ok (fi k) then Inl (pageError (status (fi k)))
        else Inr (issueSeries h nowMs (fold (eachIssue h) (pagesUpTo fi k) [])))"
proof -
  from pageLoop_total [of fi M "eachIssue h"] obtain k where k: "lastPage fi M k"
    "pageLoop fi (eachIssue h) M 1 True [] [] =
       ([1..<Suc k],
        if 0 < k \<and> \<not> ok (fi k) then Inl (pageError (status (fi k)))
        else Inr (fold (eachIssue h) (pagesUpTo fi k) []))"
    by blast
  have "fetchIssuesOverTime fi h nowMs M =
       ([1..<Suc k],
        if 0 < k \<and> \<not> ok (fi k) then Inl (pageError (status (fi k)))
        else Inr (issueSeries h nowMs (fold (eachIssue h) (pagesUpTo fi k) [])))"
  proof (cases "0 < k \<and> \<not> ok (fi k)")
    case True
    with k(2) have "pageLoop fi (eachIssue h) M 1 True [] [] = ([1..<Suc k], Inl (pageError (status (fi k))))"
      by simp
    then have "fetchIssuesOverTime fi h nowMs M = ([1..<Suc k], Inl (pageError (status (fi k))))"
      by (simp add: fetchIssuesOverTime_def)
    with True show ?thesis by simp
  next
    case False
    with k(2) have "pageLoop fi (eachIssue h) M 1 True [] [] =
        ([1..<Suc k], Inr (fold (eachIssue h) (pagesUpTo fi k) []))"
      by simp
    from fetchIssuesOverTime_eval [OF this, of nowMs] False show ?thesis
      by simp
  qed
  with k(1) show ?thesis by blast
qed

lemma fetchIssuesClosedOverTime_total:
  "\<exists>k. lastPage fi M k \<and>
     fetchIssuesClosedOverTime fi h nowMs M =
       ([1..<Suc k],
        if 0 < k \<and> \<not> ok (fi k) then Inl (pageError (status (fi k)))
        else Inr (issueSeries h nowMs (fold (eachClosed h) (pagesUpTo fi k) [])))"
proof -
  from pageLoop_total [of fi M "eachClosed h"] obtain k where k: "lastPage fi M k"
    "pageLoop fi (eachClosed h) M 1 True [] [] =
       ([1..<Suc k],
        if 0 < k \<and> \<not> ok (fi k) then Inl (pageError (status (fi k)))
        else Inr (fold (eachClosed h) (pagesUpTo fi k) []))"
    by blast
  have "fetchIssuesClosedOverTime fi h nowMs M =
       ([1..<Suc k],
        if 0 < k \<and> \<not> ok (fi k) then Inl (pageError (status (fi k)))
        else Inr (issueSeries h nowMs (fold (eachClosed h) (pagesUpTo fi k) [])))"
  proof (cases "0 < k \<and> \<not> ok (fi k)")
    case True
    with k(2) have "pageLoop fi (eachClosed h) M 1 True [] [] = ([1..<Suc k], Inl (pageError (status (fi k))))"
      by simp
    then have "fetchIssuesClosedOverTime fi h nowMs M = ([1..<Suc k], Inl (pageError (status (fi k))))"
      by (simp add: fetchIssuesClosedOverTime_def)
    with True show ?thesis by simp
  next
    case False
    with k(2) have "pageLoop fi (eachClosed h) M 1 True [] [] =
        ([1..<Suc k], Inr (fold (eachClosed h) (pagesUpTo fi k) []))"
      by simp
    from fetchIssuesClosedOverTime_eval [OF this, of nowMs] False show ?thesis
      by simp
  qed
  with k(1) show ?thesis by blast
qed

lemma series_counts:
  assumes "p \<in> set (buildWeeks (fold countDate ds Map.empty) first cur [])"
  shows "tally p = length (filter (\<lambda>d. weekStartOf (d div 1000) = week p) ds)"
proof -
  from assms have "tally p = getOr0 (fold countDate ds Map.empty) (week p)"
    by (rule buildWeeks_tally)
  also have "\<dots> = getOr0 Map.empty (week p) + length (filter (\<lambda>d. weekStartOf (d div 1000) = week p) ds)"
    by (rule fold_countDate)
  finally show ?thesis by (simp add: getOr0_def)
qed

lemma lastPage_three:
  "lastPage (pagesOf [replicate 100 x, replicate 100 x, replicate 57 x]) 10 3"
proof -
  have "pageSize (pagesOf [replicate 100 x, replicate 100 x, replicate 57 x] p) =
      (if p = 1 \<or> p = 2 then 100 else if p = 3 then 57 else 0)" for p
    by (auto simp: pageSize_def pageItems_pagesOf nth_Cons split: nat.splits)
  then show ?thesis
    by (auto simp: lastPage_def)
qed

lemma lastPage_single:
  "length xs < 100 \<Longrightarrow> lastPage (pagesOf [xs]) 10 1"
  by (simp add: lastPage_def pageSize_def pageItems_pagesOf_single)

section \<open>The claims\<close>

subsection \<open>C1: consecutive weeks of a series\<close>

text \<open>
  C1, as the claim states it, fails for the contributor series: its weeks are the
  week keys of the response, and a response that skips a week gives a series that
  skips it. Here the two points are two weeks (1209600 seconds) apart.
\<close>

theorem contributor_series_gap:
  "fetchContributorsOverTime
     \<lparr>status = 200, body = Array
        [\<lparr>author = ''a'', weeks = [\<lparr>entry_w = 604800000, entry_c = 3\<rparr>, \<lparr>entry_w = 606009600, entry_c = 1\<rparr>]\<rparr>]\<rparr>
   = Inr [\<lparr>week = 604800000, tally = 1\<rparr>, \<lparr>week = 606009600, tally = 1\<rparr>]
   \<and> week ([\<lparr>week = 604800000, tally = 1\<rparr>, \<lparr>week = 606009600, tally = 1\<rparr>] ! 1)
     - week ([\<lparr>week = 604800000, tally = 1\<rparr>, \<lparr>week = 606009600, tally = 1\<rparr>] ! 0) = 1209600"
  by (simp add: fetchContributorsOverTime_def ok_def contributorWeeks_def eachContributor_def
      eachWeekEntry_def setAdd_def getOr0_def)

text \<open>
  C1, amended. In every series that \<^verbatim>\<open>fetchStarHistory\<close>, \<^verbatim>\<open>fetchIssuesOverTime\<close> or
  \<^verbatim>\<open>fetchIssuesClosedOverTime\<close> returns, consecutive points are exactly 604800
  seconds apart: no gap, no duplicate, chronological order. In every series that
  \<^verbatim>\<open>fetchContributorsOverTime\<close> returns the weeks strictly increase (no duplicate,
  chronological order); their distance is that of the week keys in the response.
\<close>

theorem series_density:
  "(\<forall>s i. snd (fetchStarHistory f nowMs M) = Inr s \<and> Suc i < length s \<longrightarrow>
       week (s ! Suc i) - week (s ! i) = 604800)
   \<and> (\<forall>s i. snd (fetchIssuesOverTime g h nowMs M) = Inr s \<and> Suc i < length s \<longrightarrow>
       week (s ! Suc i) - week (s ! i) = 604800)
   \<and> (\<forall>s i. snd (fetchIssuesClosedOverTime g h nowMs M) = Inr s \<and> Suc i < length s \<longrightarrow>
       week (s ! Suc i) - week (s ! i) = 604800)
   \<and> (\<forall>s i. fetchContributorsOverTime r = Inr s \<and> Suc i < length s \<longrightarrow>
       week (s ! i) < week (s ! Suc i))"
proof -
  have dense: "week (buildWeeks m first cur [] ! Suc i) - week (buildWeeks m first cur [] ! i) = 604800"
    if "Suc i < length (buildWeeks m first cur [])" for m first cur i
    using buildWeeks_dense [OF that] by (simp add: secondsPerWeek_eq)
  have a: "week (s ! Suc i) - week (s ! i) = 604800"
    if "snd (fetchStarHistory f nowMs M) = Inr s" "Suc i < length s" for s i
    using fetchStarHistory_series [OF that(1)] that(2) dense by auto
  have b: "week (s ! Suc i) - week (s ! i) = 604800"
    if "snd (fetchIssuesOverTime g h nowMs M) = Inr s" "Suc i < length s" for s i
    using fetchIssuesOverTime_series [OF that(1)] that(2) dense by (auto simp: issueSeries_eq)
  have c: "week (s ! Suc i) - week (s ! i) = 604800"
    if "snd (fetchIssuesClosedOverTime g h nowMs M) = Inr s" "Suc i < length s" for s i
    using fetchIssuesClosedOverTime_series [OF that(1)] that(2) dense by (auto simp: issueSeries_eq)
  have d: "week (s ! i) < week (s ! Suc i)"
    if "fetchContributorsOverTime r = Inr s" "Suc i < length s" for s i
  proof -
    from that(1) obtain data where s: "s = contributorWeeks data"
      by (auto simp: fetchContributorsOverTime_def split: if_splits json_body.splits)
    have "map week s ! i < map week s ! Suc i"
      using that(2) unfolding s
      by (intro strictly_increasing_nth contributorWeeks_sorted contributorWeeks_distinct) simp
    then show ?thesis using that(2) by simp
  qed
  from a b c d show ?thesis by blast
qed

theorem series_density_witness:
  "snd (fetchStarHistory
     (pagesOf [[\<lparr>starred_at = Some 604800000000\<rparr>, \<lparr>starred_at = Some 606009600000\<rparr>]])
     606009600000 10)
   = Inr [\<lparr>week = 604800000, tally = 1\<rparr>, \<lparr>week = 605404800, tally = 0\<rparr>, \<lparr>week = 606009600, tally = 1\<rparr>]
   \<and> (605404800::int) - 604800000 = 604800
   \<and> (606009600::int) - 605404800 = 604800
   \<and> snd (fetchIssuesOverTime
     (pagesOf [[\<lparr>created_at = Some 1699900000000, closed_at = Some 1699950000000, pull_request = None\<rparr>,
                \<lparr>created_at = Some 1699900000000, closed_at = Some 1699950000000, pull_request = Some JObj\<rparr>]])
     1699000000000 1700000000000 10)
   = Inr [\<lparr>week = 1698883200, tally = 0\<rparr>, \<lparr>week = 1699488000, tally = 1\<rparr>]
   \<and> snd (fetchIssuesClosedOverTime
     (pagesOf [[\<lparr>created_at = Some 1699900000000, closed_at = Some 1699950000000, pull_request = None\<rparr>,
                \<lparr>created_at = Some 1699900000000, closed_at = Some 1699950000000, pull_request = Some JObj\<rparr>]])
     1699000000000 1700000000000 10)
   = Inr [\<lparr>week = 1698883200, tally = 0\<rparr>, \<lparr>week = 1699488000, tally = 1\<rparr>]
   \<and> (1699488000::int) - 1698883200 = 604800
   \<and> fetchContributorsOverTime
     \<lparr>status = 200, body = Array
        [\<lparr>author = ''a'', weeks = [\<lparr>entry_w = 604800000, entry_c = 3\<rparr>, \<lparr>entry_w = 606009600, entry_c = 1\<rparr>]\<rparr>]\<rparr>
   = Inr [\<lparr>week = 604800000, tally = 1\<rparr>, \<lparr>week = 606009600, tally = 1\<rparr>]
   \<and> (604800000::int) < 606009600"
proof -
  let ?fs = "pagesOf [[\<lparr>starred_at = Some 604800000000\<rparr>, \<lparr>starred_at = Some (606009600000::int)\<rparr>]]"
  let ?fi = "pagesOf [[\<lparr>created_at = Some (1699900000000::int), closed_at = Some (1699950000000::int), pull_request = None\<rparr>,
                \<lparr>created_at = Some 1699900000000, closed_at = Some 1699950000000, pull_request = Some JObj\<rparr>]]"
  let ?r = "\<lparr>status = 200, body = Array
        [\<lparr>author = ''a'', weeks = [\<lparr>entry_w = 604800000, entry_c = 3\<rparr>, \<lparr>entry_w = 606009600, entry_c = 1\<rparr>]\<rparr>]\<rparr>"
  let ?s = "[\<lparr>week = 604800000, tally = 1\<rparr>, \<lparr>week = 605404800, tally = 0\<rparr>, \<lparr>week = 606009600, tally = 1\<rparr>]"
  let ?t = "[\<lparr>week = 1698883200, tally = 0\<rparr>, \<lparr>week = 1699488000, tally = 1\<rparr>]"
  let ?u = "[\<lparr>week = 604800000, tally = 1\<rparr>, \<lparr>week = 606009600, tally = 1\<rparr>]"
  note th = series_density [where f = ?fs and nowMs = 606009600000 and M = 10 and r = ?r]
  note ti = series_density [where g = ?fi and h = 1699000000000 and nowMs = 1700000000000 and M = 10]
  have s: "snd (fetchStarHistory ?fs 606009600000 10) = Inr ?s"
    by (simp add: stars_example)
  have t: "snd (fetchIssuesOverTime ?fi 1699000000000 1700000000000 10) = Inr ?t"
    by (simp add: issues_example)
  have c: "snd (fetchIssuesClosedOverTime ?fi 1699000000000 1700000000000 10) = Inr ?t"
    by (simp add: closed_example)
  have u: "fetchContributorsOverTime ?r = Inr ?u"
    by (rule contributors_example)
  from th s have "week (?s ! Suc 0) - week (?s ! 0) = 604800" "week (?s ! Suc 1) - week (?s ! 1) = 604800"
    by auto
  moreover from ti t have "week (?t ! Suc 0) - week (?t ! 0) = 604800"
    by auto
  moreover from ti c have "week (?t ! Suc 0) - week (?t ! 0) = 604800"
    by auto
  moreover from th u have "week (?u ! 0) < week (?u ! Suc 0)"
    by auto
  ultimately show ?thesis
    using s t c u by simp
qed

subsection \<open>C2: weeks without events\<close>

text \<open>
  C2, as the claim states it, fails in its example: a series ends at the current week,
  not at the week of the last star. With stars in the weeks 1000 and 1002 only and the
  current time in week 1003, \<^verbatim>\<open>fetchStarHistory\<close> returns four points.
\<close>

theorem stars_later_week:
  "fetchStarHistory
     (pagesOf [[\<lparr>starred_at = Some 604800000000\<rparr>, \<lparr>starred_at = Some 606009600000\<rparr>]])
     606614400000 10
   = ([1], Inr [\<lparr>week = 604800000, tally = 1\<rparr>, \<lparr>week = 605404800, tally = 0\<rparr>,
                \<lparr>week = 606009600, tally = 1\<rparr>, \<lparr>week = 606614400, tally = 0\<rparr>])"
proof -
  have "pageLoop (pagesOf [[\<lparr>starred_at = Some 604800000000\<rparr>, \<lparr>starred_at = Some 606009600000\<rparr>]])
    eachStar 10 1 True [] [] = ([1], Inr [604800000000, 606009600000])"
    by (simp add: pageLoop_short pageSize_def pageItems_pagesOf eachStar_def)
  from fetchStarHistory_eval [OF this] show ?thesis
    by (simp add: Let_def weekStartOf_def jsRem_def secondsPerWeek_def
      countDate_def getOr0_def buildWeeks.simps)
qed

text \<open>
  C2, amended. The loop that assembles a series from \<open>first\<close> to \<open>cur\<close> emits, for
  every week \<open>wk\<close> of the grid in that range for which the map \<open>m\<close> of counts has no
  entry, the point of that week with value 0, and no other point for that week. In
  particular, when every star falls in week \<open>N\<close> or week \<open>N + 2\<close>, at least one in
  week \<open>N\<close>, and the current week, where every series ends, is week \<open>N + 2\<close>, then
  \<^verbatim>\<open>fetchStarHistory\<close> returns three points, the middle one, for week \<open>N + 1\<close>, with
  value 0.
\<close>

theorem zero_fill:
  "(first mod 604800 = 0 \<and> wk mod 604800 = 0 \<and> first \<le> wk \<and> wk \<le> cur \<and> m wk = None \<longrightarrow>
      \<lparr>week = wk, tally = 0\<rparr> \<in> set (buildWeeks m first cur [])
      \<and> (\<forall>p \<in> set (buildWeeks m first cur []). week p = wk \<longrightarrow> tally p = 0))
   \<and> (pageLoop fs eachStar maxPages 1 True [] [] = (requested, Inr starDates)
      \<and> (\<forall>d \<in> set starDates. weekStartOf (d div 1000) = N * 604800 \<or>
                                weekStartOf (d div 1000) = (N + 2) * 604800)
      \<and> (\<exists>d \<in> set starDates. weekStartOf (d div 1000) = N * 604800)
      \<and> weekStartOf (nowMs div 1000) = (N + 2) * 604800 \<longrightarrow>
      fetchStarHistory fs nowMs maxPages =
        (requested,
         Inr [\<lparr>week = N * 604800,
               tally = length (filter (\<lambda>d. weekStartOf (d div 1000) = N * 604800) starDates)\<rparr>,
              \<lparr>week = (N + 1) * 604800, tally = 0\<rparr>,
              \<lparr>week = (N + 2) * 604800,
               tally = length (filter (\<lambda>d. weekStartOf (d div 1000) = (N + 2) * 604800) starDates)\<rparr>]))"
proof (intro conjI impI; elim conjE)
  assume a: "first mod 604800 = 0" "wk mod 604800 = 0" "first \<le> wk" "wk \<le> cur" "m wk = None"
  from a show "\<lparr>week = wk, tally = 0\<rparr> \<in> set (buildWeeks m first cur [])"
    by (rule zero_fill_assembler(1))
  from a show "\<forall>p \<in> set (buildWeeks m first cur []). week p = wk \<longrightarrow> tally p = 0"
    by (rule zero_fill_assembler(2))
next
  assume "pageLoop fs eachStar maxPages 1 True [] [] = (requested, Inr starDates)"
    "\<forall>d \<in> set starDates. weekStartOf (d div 1000) = N * 604800 \<or>
                                weekStartOf (d div 1000) = (N + 2) * 604800"
    "\<exists>d \<in> set starDates. weekStartOf (d div 1000) = N * 604800"
    "weekStartOf (nowMs div 1000) = (N + 2) * 604800"
  then show "fetchStarHistory fs nowMs maxPages =
        (requested,
         Inr [\<lparr>week = N * 604800,
               tally = length (filter (\<lambda>d. weekStartOf (d div 1000) = N * 604800) starDates)\<rparr>,
              \<lparr>week = (N + 1) * 604800, tally = 0\<rparr>,
              \<lparr>week = (N + 2) * 604800,
               tally = length (filter (\<lambda>d. weekStartOf (d div 1000) = (N + 2) * 604800) starDates)\<rparr>])"
    by (rule star_scenario)
qed

theorem zero_fill_witness:
  "\<lparr>week = 605404800, tally = 0\<rparr> \<in> set (buildWeeks [604800000 \<mapsto> 1, 606009600 \<mapsto> 1] 604800000 606009600 [])
   \<and> fetchStarHistory
     (pagesOf [[\<lparr>starred_at = Some 604800000000\<rparr>, \<lparr>starred_at = Some 606009600000\<rparr>]])
     606009600000 10
   = ([1], Inr [\<lparr>week = 604800000, tally = 1\<rparr>, \<lparr>week = 605404800, tally = 0\<rparr>,
                \<lparr>week = 606009600, tally = 1\<rparr>])"
proof -
  let ?f = "pagesOf [[\<lparr>starred_at = Some 604800000000\<rparr>, \<lparr>starred_at = Some (606009600000::int)\<rparr>]]"
  let ?m = "[604800000 \<mapsto> 1, 606009600 \<mapsto> 1] :: int \<rightharpoonup> nat"
  have a: "(604800000::int) mod 604800 = 0 \<and> (605404800::int) mod 604800 = 0
      \<and> (604800000::int) \<le> 605404800 \<and> (605404800::int) \<le> 606009600 \<and> ?m 605404800 = None"
    by simp
  have loop: "pageLoop ?f eachStar 10 1 True [] [] = ([1], Inr [604800000000, 606009600000])"
    by (simp add: pageLoop_short pageSize_def pageItems_pagesOf eachStar_def)
  have w: "weekStartOf (604800000000 div 1000) = 1000 * 604800"
      "weekStartOf (606009600000 div 1000) = (1000 + 2) * 604800"
    by (simp_all add: weekStartOf_def jsRem_def secondsPerWeek_def)
  have b: "pageLoop ?f eachStar 10 1 True [] [] = ([1], Inr [604800000000, 606009600000])
      \<and> (\<forall>d \<in> set [604800000000, 606009600000]. weekStartOf (d div 1000) = 1000 * 604800 \<or>
                                weekStartOf (d div 1000) = (1000 + 2) * 604800)
      \<and> (\<exists>d \<in> set [604800000000, 606009600000]. weekStartOf (d div 1000) = 1000 * 604800)
      \<and> weekStartOf (606009600000 div 1000) = (1000 + 2) * 604800"
    using loop w by simp
  from zero_fill [where first = 604800000 and wk = 605404800 and cur = 606009600 and m = ?m
      and fs = ?f and maxPages = 10 and requested = "[1]"
      and starDates = "[604800000000, 606009600000]" and N = 1000 and nowMs = 606009600000] a b
  have "\<lparr>week = 605404800, tally = 0\<rparr> \<in> set (buildWeeks ?m 604800000 606009600 [])"
    and "fetchStarHistory ?f 606009600000 10 =
        ([1],
         Inr [\<lparr>week = 1000 * 604800,
               tally = length (filter (\<lambda>d. weekStartOf (d div 1000) = 1000 * 604800) [604800000000, 606009600000])\<rparr>,
              \<lparr>week = (1000 + 1) * 604800, tally = 0\<rparr>,
              \<lparr>week = (1000 + 2) * 604800,
               tally = length (filter (\<lambda>d. weekStartOf (d div 1000) = (1000 + 2) * 604800) [604800000000, 606009600000])\<rparr>])"
    by blast+
  then show ?thesis
    using w by simp
qed

subsection \<open>C3: active contributors per week\<close>

text \<open>
  C3, as the claim states it, fails: a contributor whose \<^verbatim>\<open>weeks\<close> lists the same week
  twice with commits is counted twice for that week, where the number of distinct
  contributors active in it is one.
\<close>

theorem contributorWeeks_duplicate_week:
  "contributorWeeks
     [\<lparr>author = ''a'', weeks = [\<lparr>entry_w = 604800000, entry_c = 1\<rparr>, \<lparr>entry_w = 604800000, entry_c = 1\<rparr>]\<rparr>]
     = [\<lparr>week = 604800000, tally = 2\<rparr>]
   \<and> spec_activeContributors
     [\<lparr>author = ''a'', weeks = [\<lparr>entry_w = 604800000, entry_c = 1\<rparr>, \<lparr>entry_w = 604800000, entry_c = 1\<rparr>]\<rparr>]
     604800000 = 1"
  by (simp add: contributorWeeks_def eachContributor_def eachWeekEntry_def setAdd_def getOr0_def
        spec_activeContributors_def activeIn_def)

text \<open>
  C3, amended. The series of \<open>contributorWeeks\<close> has one point for each week in the
  union of the contributors' week keys, in increasing order, also for a week that is
  only listed with a commit count of 0. The value of a point is the number of week
  entries for its week, over all contributors, whose commit count is greater than
  zero. When no two contributors have the same author and no contributor lists a week
  twice, that is the number of distinct contributors whose commit count for the week
  is greater than zero. The witness is the example of the claim.
\<close>

theorem contributorWeeks_correct:
  "sorted (map week (contributorWeeks data))
   \<and> distinct (map week (contributorWeeks data))
   \<and> set (map week (contributorWeeks data)) = (\<Union>k \<in> set data. entry_w ` set (weeks k))
   \<and> (\<forall>p \<in> set (contributorWeeks data).
        tally p = length (filter (\<lambda>e. entry_w e = week p \<and> 0 < entry_c e) (concat (map weeks data))))
   \<and> (distinct (map author data) \<and> (\<forall>k \<in> set data. distinct (map entry_w (weeks k))) \<longrightarrow>
        (\<forall>p \<in> set (contributorWeeks data). tally p = spec_activeContributors data (week p)))"
proof -
  have "\<forall>p \<in> set (contributorWeeks data). tally p = spec_activeContributors data (week p)"
    if "distinct (map author data)" "\<forall>k \<in> set data. distinct (map entry_w (weeks k))"
    using that by (simp add: contributorWeeks_tally entries_count_records spec_count_records)
  then show ?thesis
    using contributorWeeks_sorted contributorWeeks_distinct set_week_contributorWeeks
      contributorWeeks_tally
    by blast
qed

theorem contributorWeeks_correct_witness:
  "contributorWeeks
     [\<lparr>author = ''a'', weeks = [\<lparr>entry_w = 1000 * 604800, entry_c = 3\<rparr>]\<rparr>,
      \<lparr>author = ''b'', weeks = [\<lparr>entry_w = 1000 * 604800, entry_c = 0\<rparr>]\<rparr>]
     = [\<lparr>week = 1000 * 604800, tally = 1\<rparr>]
   \<and> spec_activeContributors
     [\<lparr>author = ''a'', weeks = [\<lparr>entry_w = 1000 * 604800, entry_c = 3\<rparr>]\<rparr>,
      \<lparr>author = ''b'', weeks = [\<lparr>entry_w = 1000 * 604800, entry_c = 0\<rparr>]\<rparr>]
     (1000 * 604800) = tally \<lparr>week = 1000 * 604800, tally = 1\<rparr>"
proof -
  let ?data = "[\<lparr>author = ''a'', weeks = [\<lparr>entry_w = 1000 * 604800, entry_c = 3\<rparr>]\<rparr>,
      \<lparr>author = ''b'', weeks = [\<lparr>entry_w = 1000 * 604800, entry_c = 0\<rparr>]\<rparr>]"
  have ev: "contributorWeeks ?data = [\<lparr>week = 1000 * 604800, tally = 1\<rparr>]"
    by (simp add: contributorWeeks_def eachContributor_def eachWeekEntry_def setAdd_def getOr0_def)
  have pre: "distinct (map author ?data) \<and> (\<forall>k \<in> set ?data. distinct (map entry_w (weeks k)))"
    by simp
  from contributorWeeks_correct [of ?data] pre
  have "\<forall>p \<in> set (contributorWeeks ?data). tally p = spec_activeContributors ?data (week p)"
    by blast
  with ev show ?thesis by simp
qed

subsection \<open>C4: no events at all\<close>

text \<open>
  C4, as the claim states it, fails for the contributor operation: on the empty array
  it throws \<^verbatim>\<open>StatsComputingError\<close> and returns no series, empty or not.
\<close>

theorem contributors_empty_array:
  "fetchContributorsOverTime \<lparr>status = 200, body = Array []\<rparr> = Inl StatsComputing"
  by (simp add: fetchContributorsOverTime_def ok_def)

text \<open>
  C4, amended. When every page is delivered and no star carries a timestamp,
  \<^verbatim>\<open>fetchStarHistory\<close> returns the empty series, not a single point of value 0. The
  reduction of no contributors is the empty series; \<^verbatim>\<open>fetchContributorsOverTime\<close>
  returns the empty series on a non-empty array whose contributors list no week, and
  throws \<^verbatim>\<open>StatsComputingError\<close> on the empty array. When every page is delivered
  and no item is counted (every item that is no pull request has no timestamp or one
  before the horizon), \<^verbatim>\<open>fetchIssuesOverTime\<close> and \<^verbatim>\<open>fetchIssuesClosedOverTime\<close>
  return the point of value 0 of every week from the week of the horizon to the
  current week; these are 53 points when the horizon is not negative and exactly 52
  weeks before the current time.
\<close>

theorem empty_input:
  "((\<forall>p. ok (fs p) \<and> (\<forall>s \<in> set (pageItems (fs p)). starred_at s = None)) \<longrightarrow>
      snd (fetchStarHistory fs nowMs maxPages) = Inr [])
   \<and> contributorWeeks [] = []
   \<and> (ok r \<and> body r = Array data \<and> data \<noteq> [] \<and> (\<forall>k \<in> set data. weeks k = []) \<longrightarrow>
      fetchContributorsOverTime r = Inr [])
   \<and> (ok r \<and> body r = Array [] \<longrightarrow> fetchContributorsOverTime r = Inl StatsComputing)
   \<and> ((\<forall>p. ok (fi p) \<and>
          (\<forall>i \<in> set (pageItems (fi p)). notPullRequest i \<longrightarrow> (\<forall>t. created_at i = Some t \<longrightarrow> t < h))) \<longrightarrow>
      snd (fetchIssuesOverTime fi h nowMs maxPages) =
        Inr (map (\<lambda>k. \<lparr>week = weekStartOf (h div 1000) + int k * 604800, tally = 0\<rparr>)
               [0..<weekCount (weekStartOf (h div 1000)) (weekStartOf (nowMs div 1000))]))
   \<and> ((\<forall>p. ok (fi p) \<and>
          (\<forall>i \<in> set (pageItems (fi p)). notPullRequest i \<longrightarrow> (\<forall>t. closed_at i = Some t \<longrightarrow> t < h))) \<longrightarrow>
      snd (fetchIssuesClosedOverTime fi h nowMs maxPages) =
        Inr (map (\<lambda>k. \<lparr>week = weekStartOf (h div 1000) + int k * 604800, tally = 0\<rparr>)
               [0..<weekCount (weekStartOf (h div 1000)) (weekStartOf (nowMs div 1000))]))
   \<and> (0 \<le> h \<and> nowMs = h + 52 * 7 * 24 * 60 * 60 * 1000 \<longrightarrow>
      weekCount (weekStartOf (h div 1000)) (weekStartOf (nowMs div 1000)) = 53)"
proof -
  have a: "snd (fetchStarHistory fs nowMs maxPages) = Inr []"
    if "\<forall>p. ok (fs p) \<and> (\<forall>s \<in> set (pageItems (fs p)). starred_at s = None)"
  proof -
    from that have "snd (pageLoop fs eachStar maxPages 1 True [] []) = Inr []"
      by (intro pageLoop_no_dates) (simp_all add: eachStar_none)
    from fetchStarHistory_Inr [OF this, of nowMs] show ?thesis by simp
  qed
  have b: "contributorWeeks [] = []"
    by (simp add: contributorWeeks_def)
  have c: "fetchContributorsOverTime r = Inr []"
    if "ok r \<and> body r = Array data \<and> data \<noteq> [] \<and> (\<forall>k \<in> set data. weeks k = [])"
    using that contributorWeeks_empty_iff [of data] by (simp add: fetchContributorsOverTime_def)
  have d: "fetchContributorsOverTime r = Inl StatsComputing" if "ok r \<and> body r = Array []"
    using that by (simp add: fetchContributorsOverTime_def)
  have e: "snd (fetchIssuesOverTime fi h nowMs maxPages) =
        Inr (map (\<lambda>k. \<lparr>week = weekStartOf (h div 1000) + int k * 604800, tally = 0\<rparr>)
               [0..<weekCount (weekStartOf (h div 1000)) (weekStartOf (nowMs div 1000))])"
    if "\<forall>p. ok (fi p) \<and>
          (\<forall>i \<in> set (pageItems (fi p)). notPullRequest i \<longrightarrow> (\<forall>t. created_at i = Some t \<longrightarrow> t < h))"
  proof -
    from that have "snd (pageLoop fi (eachIssue h) maxPages 1 True [] []) = Inr []"
      by (intro pageLoop_no_dates) (simp_all add: eachIssue_old)
    from fetchIssuesOverTime_Inr [OF this, of nowMs] show ?thesis
      by (simp only: issueSeries_Nil)
  qed
  have f: "snd (fetchIssuesClosedOverTime fi h nowMs maxPages) =
        Inr (map (\<lambda>k. \<lparr>week = weekStartOf (h div 1000) + int k * 604800, tally = 0\<rparr>)
               [0..<weekCount (weekStartOf (h div 1000)) (weekStartOf (nowMs div 1000))])"
    if "\<forall>p. ok (fi p) \<and>
          (\<forall>i \<in> set (pageItems (fi p)). notPullRequest i \<longrightarrow> (\<forall>t. closed_at i = Some t \<longrightarrow> t < h))"
  proof -
    from that have "snd (pageLoop fi (eachClosed h) maxPages 1 True [] []) = Inr []"
      by (intro pageLoop_no_dates) (simp_all add: eachClosed_old)
    from fetchIssuesClosedOverTime_Inr [OF this, of nowMs] show ?thesis
      by (simp only: issueSeries_Nil)
  qed
  have g: "weekCount (weekStartOf (h div 1000)) (weekStartOf (nowMs div 1000)) = 53"
    if "0 \<le> h \<and> nowMs = h + 52 * 7 * 24 * 60 * 60 * 1000"
    using that weekCount_52 [of h nowMs] by blast
  from a b c d e f g show ?thesis by blast
qed

theorem empty_input_witness:
  "snd (fetchStarHistory (pagesOf [[\<lparr>starred_at = None\<rparr>]]) 1700000000000 10) = Inr []
   \<and> fetchContributorsOverTime \<lparr>status = 200, body = Array [\<lparr>author = ''a'', weeks = []\<rparr>]\<rparr> = Inr []
   \<and> fetchContributorsOverTime \<lparr>status = 200, body = Array []\<rparr> = Inl StatsComputing
   \<and> snd (fetchIssuesOverTime
        (pagesOf [[\<lparr>created_at = Some 1600000000000, closed_at = None, pull_request = None\<rparr>]])
        1668550400000 1700000000000 10)
      = Inr (map (\<lambda>k. \<lparr>week = 1668038400 + int k * 604800, tally = 0\<rparr>) [0..<53])
   \<and> snd (fetchIssuesClosedOverTime
        (pagesOf [[\<lparr>created_at = Some 1600000000000, closed_at = None, pull_request = None\<rparr>]])
        1668550400000 1700000000000 10)
      = Inr (map (\<lambda>k. \<lparr>week = 1668038400 + int k * 604800, tally = 0\<rparr>) [0..<53])"
proof -
  let ?fs = "pagesOf [[\<lparr>starred_at = None :: int option\<rparr>]]"
  let ?fi = "pagesOf [[\<lparr>created_at = Some (1600000000000::int), closed_at = None, pull_request = None\<rparr>]]"
  let ?r = "\<lparr>status = 200, body = Array [\<lparr>author = ''a'', weeks = []\<rparr>]\<rparr>"
  note th = empty_input [where fs = ?fs and nowMs = 1700000000000 and maxPages = 10 and r = ?r
      and data = "[\<lparr>author = ''a'', weeks = []\<rparr>]" and fi = ?fi and h = 1668550400000]
  have s: "\<forall>p. ok (?fs p) \<and> (\<forall>s \<in> set (pageItems (?fs p)). starred_at s = None)"
    by (simp add: pageItems_pagesOf_single)
  have c: "ok ?r \<and> body ?r = Array [\<lparr>author = ''a'', weeks = []\<rparr>]
      \<and> [\<lparr>author = ''a'', weeks = []\<rparr>] \<noteq> []
      \<and> (\<forall>k \<in> set [\<lparr>author = ''a'', weeks = []\<rparr>]. weeks k = [])"
    by (simp add: ok_def)
  have i: "\<forall>p. ok (?fi p) \<and>
          (\<forall>i \<in> set (pageItems (?fi p)). notPullRequest i \<longrightarrow>
             (\<forall>t. created_at i = Some t \<longrightarrow> t < 1668550400000))"
    by (simp add: pageItems_pagesOf_single)
  have j: "\<forall>p. ok (?fi p) \<and>
          (\<forall>i \<in> set (pageItems (?fi p)). notPullRequest i \<longrightarrow>
             (\<forall>t. closed_at i = Some t \<longrightarrow> t < 1668550400000))"
    by (simp add: pageItems_pagesOf_single)
  have n: "(0::int) \<le> 1668550400000 \<and> (1700000000000::int) = 1668550400000 + 52 * 7 * 24 * 60 * 60 * 1000"
    by simp
  have w: "weekStartOf (1668550400000 div 1000) = 1668038400"
    by (simp add: weekStartOf_def jsRem_def secondsPerWeek_def)
  from th s have 1: "snd (fetchStarHistory ?fs 1700000000000 10) = Inr []" by blast
  from th c have 2: "fetchContributorsOverTime ?r = Inr []" by blast
  have "ok \<lparr>status = 200, body = Array []\<rparr> \<and> body \<lparr>status = 200, body = Array []\<rparr> = Array []"
    by (simp add: ok_def)
  with empty_input [where r = "\<lparr>status = 200, body = Array []\<rparr>"]
  have 6: "fetchContributorsOverTime \<lparr>status = 200, body = Array []\<rparr> = Inl StatsComputing"
    by blast
  from th n have 3: "weekCount (weekStartOf (1668550400000 div 1000)) (weekStartOf (1700000000000 div 1000)) = 53"
    by blast
  from th i have 4: "snd (fetchIssuesOverTime ?fi 1668550400000 1700000000000 10) =
        Inr (map (\<lambda>k. \<lparr>week = weekStartOf (1668550400000 div 1000) + int k * 604800, tally = 0\<rparr>)
               [0..<weekCount (weekStartOf (1668550400000 div 1000)) (weekStartOf (1700000000000 div 1000))])"
    by blast
  from th j have 5: "snd (fetchIssuesClosedOverTime ?fi 1668550400000 1700000000000 10) =
        Inr (map (\<lambda>k. \<lparr>week = weekStartOf (1668550400000 div 1000) + int k * 604800, tally = 0\<rparr>)
               [0..<weekCount (weekStartOf (1668550400000 div 1000)) (weekStartOf (1700000000000 div 1000))])"
    by blast
  from 1 2 3 4 5 6 w show ?thesis
    by simp
qed

subsection \<open>C5: pull requests among the issues\<close>

text \<open>
  C5, as the claim states it, fails: the code tests \<^verbatim>\<open>!issue.pull_request\<close>, so an
  item that carries the field \<^verbatim>\<open>pull_request\<close> with a falsy value, here \<^verbatim>\<open>null\<close>, is
  counted as an issue.
\<close>

theorem issue_null_pull_request:
  "pull_request \<lparr>created_at = Some 1699900000000, closed_at = None, pull_request = Some JNull\<rparr> \<noteq> None
   \<and> fetchIssuesOverTime
     (pagesOf [[\<lparr>created_at = Some 1699900000000, closed_at = None, pull_request = Some JNull\<rparr>]])
     1699000000000 1700000000000 10
   = ([1], Inr [\<lparr>week = 1698883200, tally = 0\<rparr>, \<lparr>week = 1699488000, tally = 1\<rparr>])"
proof -
  have "pageLoop (pagesOf [[\<lparr>created_at = Some 1699900000000, closed_at = None, pull_request = Some JNull\<rparr>]])
    (eachIssue 1699000000000) 10 1 True [] [] = ([1], Inr [1699900000000])"
    by (simp add: pageLoop_short pageSize_def pageItems_pagesOf eachIssue_def notPullRequest_def)
  from fetchIssuesOverTime_eval [OF this] show ?thesis
    by (simp add: issueSeries_def Let_def weekStartOf_def jsRem_def secondsPerWeek_def
      countDate_def getOr0_def buildWeeks.simps)
qed

text \<open>
  C5, amended. An item whose field \<^verbatim>\<open>pull_request\<close> is present and truthy (GitHub
  sends an object), which is when \<open>notPullRequest\<close> is false, adds no date in
  \<^verbatim>\<open>fetchIssuesOverTime\<close> nor in \<^verbatim>\<open>fetchIssuesClosedOverTime\<close>; and replacing such
  items of the responses by any other such items, whatever their timestamps, changes
  neither the pages requested nor the outcome of the two operations.
\<close>

theorem pull_request_exclusion:
  "(\<not> notPullRequest i \<longleftrightarrow> (\<exists>v. pull_request i = Some v \<and> truthy v))
   \<and> (pull_request i = Some v \<and> truthy v \<longrightarrow>
        eachIssue h i dates = dates \<and> eachClosed h i dates = dates)
   \<and> ((\<forall>i. notPullRequest i \<longrightarrow> r i = i) \<and> (\<forall>i. \<not> notPullRequest i \<longrightarrow> \<not> notPullRequest (r i)) \<longrightarrow>
        fetchIssuesOverTime (\<lambda>p. mapItems r (fi p)) h nowMs maxPages
          = fetchIssuesOverTime fi h nowMs maxPages
      \<and> fetchIssuesClosedOverTime (\<lambda>p. mapItems r (fi p)) h nowMs maxPages
          = fetchIssuesClosedOverTime fi h nowMs maxPages)"
proof -
  have n: "\<not> notPullRequest i \<longleftrightarrow> (\<exists>v. pull_request i = Some v \<and> truthy v)"
    by (simp add: notPullRequest_def split: option.splits)
  then have a: "pull_request i = Some v \<and> truthy v \<longrightarrow>
        eachIssue h i dates = dates \<and> eachClosed h i dates = dates"
    by (auto simp: eachIssue_pull_request eachClosed_pull_request)
  have b: "fetchIssuesOverTime (\<lambda>p. mapItems r (fi p)) h nowMs maxPages
          = fetchIssuesOverTime fi h nowMs maxPages
      \<and> fetchIssuesClosedOverTime (\<lambda>p. mapItems r (fi p)) h nowMs maxPages
          = fetchIssuesClosedOverTime fi h nowMs maxPages"
    if r: "(\<forall>i. notPullRequest i \<longrightarrow> r i = i) \<and> (\<forall>i. \<not> notPullRequest i \<longrightarrow> \<not> notPullRequest (r i))"
  proof -
    have "eachIssue h (r x) = eachIssue h x" for x
      using r by (cases "notPullRequest x") (auto simp: eachIssue_pull_request fun_eq_iff)
    then have 1: "pageLoop (\<lambda>p. mapItems r (fi p)) (eachIssue h) maxPages 1 True [] [] =
        pageLoop fi (eachIssue h) maxPages 1 True [] []"
      by (intro pageLoop_mapItems) simp
    have "eachClosed h (r x) = eachClosed h x" for x
      using r by (cases "notPullRequest x") (auto simp: eachClosed_pull_request fun_eq_iff)
    then have 2: "pageLoop (\<lambda>p. mapItems r (fi p)) (eachClosed h) maxPages 1 True [] [] =
        pageLoop fi (eachClosed h) maxPages 1 True [] []"
      by (intro pageLoop_mapItems) simp
    show ?thesis
      unfolding fetchIssuesOverTime_def fetchIssuesClosedOverTime_def 1 2 by simp
  qed
  from n a b show ?thesis by blast
qed

theorem pull_request_exclusion_witness:
  "eachIssue 1699000000000
     \<lparr>created_at = Some 1699900000000, closed_at = Some 1699950000000, pull_request = Some JObj\<rparr> []
     = []
   \<and> eachClosed 1699000000000
     \<lparr>created_at = Some 1699900000000, closed_at = Some 1699950000000, pull_request = Some JObj\<rparr> []
     = []
   \<and> fetchIssuesOverTime
     (pagesOf [[\<lparr>created_at = Some 1699900000000, closed_at = Some 1699950000000, pull_request = None\<rparr>,
                \<lparr>created_at = Some 1699900000000, closed_at = Some 1699950000000, pull_request = Some JObj\<rparr>]])
     1699000000000 1700000000000 10
   = fetchIssuesOverTime
     (pagesOf [[\<lparr>created_at = Some 1699900000000, closed_at = Some 1699950000000, pull_request = None\<rparr>,
                \<lparr>created_at = None, closed_at = None, pull_request = Some JObj\<rparr>]])
     1699000000000 1700000000000 10
   \<and> fetchIssuesOverTime
     (pagesOf [[\<lparr>created_at = Some 1699900000000, closed_at = Some 1699950000000, pull_request = None\<rparr>,
                \<lparr>created_at = Some 1699900000000, closed_at = Some 1699950000000, pull_request = Some JObj\<rparr>]])
     1699000000000 1700000000000 10
   = ([1], Inr [\<lparr>week = 1698883200, tally = 0\<rparr>, \<lparr>week = 1699488000, tally = 1\<rparr>])
   \<and> fetchIssuesClosedOverTime
     (pagesOf [[\<lparr>created_at = Some 1699900000000, closed_at = Some 1699950000000, pull_request = None\<rparr>,
                \<lparr>created_at = Some 1699900000000, closed_at = Some 1699950000000, pull_request = Some JObj\<rparr>]])
     1699000000000 1700000000000 10
   = fetchIssuesClosedOverTime
     (pagesOf [[\<lparr>created_at = Some 1699900000000, closed_at = Some 1699950000000, pull_request = None\<rparr>,
                \<lparr>created_at = None, closed_at = None, pull_request = Some JObj\<rparr>]])
     1699000000000 1700000000000 10
   \<and> fetchIssuesClosedOverTime
     (pagesOf [[\<lparr>created_at = Some 1699900000000, closed_at = Some 1699950000000, pull_request = None\<rparr>,
                \<lparr>created_at = Some 1699900000000, closed_at = Some 1699950000000, pull_request = Some JObj\<rparr>]])
     1699000000000 1700000000000 10
   = ([1], Inr [\<lparr>week = 1698883200, tally = 0\<rparr>, \<lparr>week = 1699488000, tally = 1\<rparr>])"
proof -
  let ?i = "\<lparr>created_at = Some (1699900000000::int), closed_at = Some (1699950000000::int), pull_request = None\<rparr>"
  let ?pr = "\<lparr>created_at = Some (1699900000000::int), closed_at = Some (1699950000000::int), pull_request = Some JObj\<rparr>"
  let ?masked = "\<lparr>created_at = None :: int option, closed_at = None :: int option, pull_request = Some JObj\<rparr>"
  let ?r = "\<lambda>i. if notPullRequest i then i else i\<lparr>created_at := None, closed_at := None\<rparr>"
  note th = pull_request_exclusion [where i = ?pr and v = JObj and h = 1699000000000
      and dates = "[]" and r = ?r
      and fi = "pagesOf [[?i, ?pr]]" and nowMs = 1700000000000 and maxPages = 10]
  have pr: "pull_request ?pr = Some JObj \<and> truthy JObj"
    by simp
  have r: "(\<forall>i. notPullRequest i \<longrightarrow> ?r i = i) \<and> (\<forall>i. \<not> notPullRequest i \<longrightarrow> \<not> notPullRequest (?r i))"
    by (simp add: notPullRequest_def)
  have srv: "(\<lambda>p. mapItems ?r (pagesOf [[?i, ?pr]] p)) = pagesOf [[?i, ?masked]]"
    by (rule ext) (simp add: mapItems_def pagesOf_def notPullRequest_def)
  from th pr have 1: "eachIssue 1699000000000 ?pr [] = []" and 2: "eachClosed 1699000000000 ?pr [] = []"
    by blast+
  from th r have "fetchIssuesOverTime (\<lambda>p. mapItems ?r (pagesOf [[?i, ?pr]] p)) 1699000000000 1700000000000 10
      = fetchIssuesOverTime (pagesOf [[?i, ?pr]]) 1699000000000 1700000000000 10"
    and "fetchIssuesClosedOverTime (\<lambda>p. mapItems ?r (pagesOf [[?i, ?pr]] p)) 1699000000000 1700000000000 10
      = fetchIssuesClosedOverTime (pagesOf [[?i, ?pr]]) 1699000000000 1700000000000 10"
    by blast+
  then have 3: "fetchIssuesOverTime (pagesOf [[?i, ?pr]]) 1699000000000 1700000000000 10
      = fetchIssuesOverTime (pagesOf [[?i, ?masked]]) 1699000000000 1700000000000 10"
    and 4: "fetchIssuesClosedOverTime (pagesOf [[?i, ?pr]]) 1699000000000 1700000000000 10
      = fetchIssuesClosedOverTime (pagesOf [[?i, ?masked]]) 1699000000000 1700000000000 10"
    by (simp_all only: srv)
  show ?thesis
  proof (intro conjI)
    show "eachIssue 1699000000000 ?pr [] = []" by (rule 1)
    show "eachClosed 1699000000000 ?pr [] = []" by (rule 2)
    show "fetchIssuesOverTime (pagesOf [[?i, ?pr]]) 1699000000000 1700000000000 10
      = fetchIssuesOverTime (pagesOf [[?i, ?masked]]) 1699000000000 1700000000000 10" by (rule 3)
    show "fetchIssuesOverTime (pagesOf [[?i, ?pr]]) 1699000000000 1700000000000 10
      = ([1], Inr [\<lparr>week = 1698883200, tally = 0\<rparr>, \<lparr>week = 1699488000, tally = 1\<rparr>])"
      by (rule issues_example)
    show "fetchIssuesClosedOverTime (pagesOf [[?i, ?pr]]) 1699000000000 1700000000000 10
      = fetchIssuesClosedOverTime (pagesOf [[?i, ?masked]]) 1699000000000 1700000000000 10" by (rule 4)
    show "fetchIssuesClosedOverTime (pagesOf [[?i, ?pr]]) 1699000000000 1700000000000 10
      = ([1], Inr [\<lparr>week = 1698883200, tally = 0\<rparr>, \<lparr>week = 1699488000, tally = 1\<rparr>])"
      by (rule closed_example)
  qed
qed

subsection \<open>C6: pagination\<close>

text \<open>
  C6. The loop always returns or throws, and what it does is determined by the one
  page \<open>k\<close> at which the pagination stops (\<open>lastPage\<close>): it requests the pages
  1, 2, ..., \<open>k\<close> in this order, where \<open>k\<close> is not above the ceiling \<open>maxPages\<close>
  (10 by default), every page before \<open>k\<close> was delivered with at least 100 items, and
  \<open>k\<close> is below the ceiling only if page \<open>k\<close> has fewer than 100 items (or none, or
  a body that is no array) or was not delivered. If page \<open>k\<close> was not delivered the
  loop throws the error of its status; otherwise it returns, and the dates
  accumulated are those of the callback run over the concatenation of the pages
  1 to \<open>k\<close>, in page order. The callbacks keep, in order, the timestamp of every
  star that has one, and the creation (closing) time of every item that is no pull
  request and has one at or after the horizon. Each of the three operations requests
  the same pages, throws the same error, and otherwise returns the series built from
  exactly these dates, in which the value of every point is the number of
  accumulated dates that fall in its week. The witness is the run on pages of 100,
  100 and 57 items with ceiling 10, which requests three pages and counts 257 stars.
\<close>

theorem pagination:
  "(\<exists>k. lastPage fetch maxPages k \<and> (\<forall>j. lastPage fetch maxPages j \<longrightarrow> j = k)
       \<and> pageLoop fetch each maxPages 1 True [] [] =
           ([1..<Suc k],
            if 0 < k \<and> \<not> ok (fetch k) then Inl (pageError (status (fetch k)))
            else Inr (fold each (pagesUpTo fetch k) [])))
   \<and> fold eachStar stars [] =
       map (the \<circ> starred_at) (filter (\<lambda>s. starred_at s \<noteq> None) stars)
   \<and> fold (eachIssue h) items [] =
       map (the \<circ> created_at)
         (filter (\<lambda>i. notPullRequest i \<and> created_at i \<noteq> None \<and> h \<le> the (created_at i)) items)
   \<and> fold (eachClosed h) items [] =
       map (the \<circ> closed_at)
         (filter (\<lambda>i. notPullRequest i \<and> closed_at i \<noteq> None \<and> h \<le> the (closed_at i)) items)
   \<and> (\<exists>k. lastPage fs maxPages k
       \<and> fetchStarHistory fs nowMs maxPages =
           ([1..<Suc k],
            if 0 < k \<and> \<not> ok (fs k) then Inl (pageError (status (fs k)))
            else Inr (let starDates = fold eachStar (pagesUpTo fs k) [] in
                      if starDates = [] then []
                      else buildWeeks (fold countDate (sort starDates) Map.empty)
                             (weekStartOf (hd (sort starDates) div 1000))
                             (weekStartOf (nowMs div 1000)) [])))
   \<and> (\<exists>k. lastPage fi maxPages k
       \<and> fetchIssuesOverTime fi h nowMs maxPages =
           ([1..<Suc k],
            if 0 < k \<and> \<not> ok (fi k) then Inl (pageError (status (fi k)))
            else Inr (issueSeries h nowMs (fold (eachIssue h) (pagesUpTo fi k) []))))
   \<and> (\<exists>k. lastPage fi maxPages k
       \<and> fetchIssuesClosedOverTime fi h nowMs maxPages =
           ([1..<Suc k],
            if 0 < k \<and> \<not> ok (fi k) then Inl (pageError (status (fi k)))
            else Inr (issueSeries h nowMs (fold (eachClosed h) (pagesUpTo fi k) []))))
   \<and> (\<forall>p \<in> set (buildWeeks (fold countDate dates Map.empty) first cur []).
        tally p = length (filter (\<lambda>d. weekStartOf (d div 1000) = week p) dates))"
proof -
  from pageLoop_total [of fetch maxPages each] obtain k where k: "lastPage fetch maxPages k"
    "pageLoop fetch each maxPages 1 True [] [] =
           ([1..<Suc k],
            if 0 < k \<and> \<not> ok (fetch k) then Inl (pageError (status (fetch k)))
            else Inr (fold each (pagesUpTo fetch k) []))"
    by blast
  from k(1) have "\<forall>j. lastPage fetch maxPages j \<longrightarrow> j = k"
    using lastPage_unique by blast
  with k have a: "\<exists>k. lastPage fetch maxPages k \<and> (\<forall>j. lastPage fetch maxPages j \<longrightarrow> j = k)
       \<and> pageLoop fetch each maxPages 1 True [] [] =
           ([1..<Suc k],
            if 0 < k \<and> \<not> ok (fetch k) then Inl (pageError (status (fetch k)))
            else Inr (fold each (pagesUpTo fetch k) []))"
    by blast
  have b: "fold eachStar stars [] =
       map (the \<circ> starred_at) (filter (\<lambda>s. starred_at s \<noteq> None) stars)"
    by (simp add: fold_eachStar)
  have c: "fold (eachIssue h) items [] =
       map (the \<circ> created_at)
         (filter (\<lambda>i. notPullRequest i \<and> created_at i \<noteq> None \<and> h \<le> the (created_at i)) items)"
    by (simp add: fold_eachIssue)
  have d: "fold (eachClosed h) items [] =
       map (the \<circ> closed_at)
         (filter (\<lambda>i. notPullRequest i \<and> closed_at i \<noteq> None \<and> h \<le> the (closed_at i)) items)"
    by (simp add: fold_eachClosed)
  have e: "\<forall>p \<in> set (buildWeeks (fold countDate dates Map.empty) first cur []).
        tally p = length (filter (\<lambda>d. weekStartOf (d div 1000) = week p) dates)"
    using series_counts by blast
  show ?thesis
    by (intro conjI a b c d e fetchStarHistory_total fetchIssuesOverTime_total
        fetchIssuesClosedOverTime_total)
qed

theorem pagination_witness:
  "pageLoop
     (pagesOf [replicate 100 \<lparr>starred_at = Some 604800000000\<rparr>,
               replicate 100 \<lparr>starred_at = Some 604800000000\<rparr>,
               replicate 57 \<lparr>starred_at = Some 604800000000\<rparr>])
     eachStar 10 1 True [] [] = ([1, 2, 3], Inr (replicate 257 604800000000))
   \<and> fetchStarHistory
     (pagesOf [replicate 100 \<lparr>starred_at = Some 604800000000\<rparr>,
               replicate 100 \<lparr>starred_at = Some 604800000000\<rparr>,
               replicate 57 \<lparr>starred_at = Some 604800000000\<rparr>])
     604800000000 10 = ([1, 2, 3], Inr [\<lparr>week = 604800000, tally = 257\<rparr>])
   \<and> fetchIssuesOverTime
     (pagesOf [[\<lparr>created_at = Some 1699900000000, closed_at = Some 1699950000000, pull_request = None\<rparr>,
                \<lparr>created_at = Some 1699900000000, closed_at = Some 1699950000000, pull_request = Some JObj\<rparr>]])
     1699000000000 1700000000000 10
     = ([1], Inr [\<lparr>week = 1698883200, tally = 0\<rparr>, \<lparr>week = 1699488000, tally = 1\<rparr>])
   \<and> fetchIssuesClosedOverTime
     (pagesOf [[\<lparr>created_at = Some 1699900000000, closed_at = Some 1699950000000, pull_request = None\<rparr>,
                \<lparr>created_at = Some 1699900000000, closed_at = Some 1699950000000, pull_request = Some JObj\<rparr>]])
     1699000000000 1700000000000 10
     = ([1], Inr [\<lparr>week = 1698883200, tally = 0\<rparr>, \<lparr>week = 1699488000, tally = 1\<rparr>])"
proof -
  let ?f = "pagesOf [replicate 100 \<lparr>starred_at = Some 604800000000\<rparr>,
               replicate 100 \<lparr>starred_at = Some 604800000000\<rparr>,
               replicate 57 \<lparr>starred_at = Some (604800000000::int)\<rparr>]"
  let ?i = "\<lparr>created_at = Some (1699900000000::int), closed_at = Some (1699950000000::int), pull_request = None\<rparr>"
  let ?pr = "\<lparr>created_at = Some (1699900000000::int), closed_at = Some (1699950000000::int), pull_request = Some JObj\<rparr>"
  let ?g = "pagesOf [[?i, ?pr]]"
  note th = pagination [where fetch = ?f and each = eachStar and maxPages = 10 and fs = ?f
      and nowMs = 604800000000]
  note ti = pagination [where fi = ?g and maxPages = 10 and h = 1699000000000
      and nowMs = 1700000000000]
  have three: "lastPage ?f 10 3" by (rule lastPage_three)
  have one: "lastPage ?g 10 1" by (rule lastPage_single) simp
  have items: "pagesUpTo ?f 3 = replicate 257 \<lparr>starred_at = Some 604800000000\<rparr>"
    by (simp add: pagesUpTo_def upt_rec pageItems_pagesOf replicate_add [symmetric])
  have dates: "fold eachStar (replicate 257 \<lparr>starred_at = Some 604800000000\<rparr>) [] =
      replicate 257 604800000000"
    by (simp add: fold_eachStar_replicate del: fold_replicate)
  have tally: "getOr0 (fold countDate (replicate 257 604800000000) Map.empty) 604800000 = 257"
    using fold_countDate [of "replicate 257 604800000000" Map.empty 604800000]
    by (simp add: filter_replicate weekStartOf_def jsRem_def secondsPerWeek_def getOr0_def
        del: fold_replicate)
  have ws: "weekStartOf (604800000000 div 1000) = 604800000"
    by (simp add: weekStartOf_def jsRem_def secondsPerWeek_def)
  have bw: "buildWeeks m 604800000 604800000 [] = [\<lparr>week = 604800000, tally = getOr0 m 604800000\<rparr>]"
    for m
    by (simp add: buildWeeks.simps secondsPerWeek_def)
  from th obtain k where k: "lastPage ?f 10 k" "\<forall>j. lastPage ?f 10 j \<longrightarrow> j = k"
    "pageLoop ?f eachStar 10 1 True [] [] =
           ([1..<Suc k],
            if 0 < k \<and> \<not> ok (?f k) then Inl (pageError (status (?f k)))
            else Inr (fold eachStar (pagesUpTo ?f k) []))"
    by blast
  from k(2) three have "k = 3" by blast
  with k(3) have 1: "pageLoop ?f eachStar 10 1 True [] [] = ([1, 2, 3], Inr (replicate 257 604800000000))"
    by (simp add: items dates upt_rec del: fold_replicate)
  from th obtain k' where k': "lastPage ?f 10 k'"
    "fetchStarHistory ?f 604800000000 10 =
           ([1..<Suc k'],
            if 0 < k' \<and> \<not> ok (?f k') then Inl (pageError (status (?f k')))
            else Inr (let starDates = fold eachStar (pagesUpTo ?f k') [] in
                      if starDates = [] then []
                      else buildWeeks (fold countDate (sort starDates) Map.empty)
                             (weekStartOf (hd (sort starDates) div 1000))
                             (weekStartOf (604800000000 div 1000)) []))"
    by blast
  from k'(1) three have "k' = 3" by (rule lastPage_unique [symmetric])
  with k'(2) have 2: "fetchStarHistory ?f 604800000000 10 =
      ([1, 2, 3], Inr [\<lparr>week = 604800000, tally = 257\<rparr>])"
    using ws tally
    by (simp add: items dates upt_rec sort_replicate bw Let_def del: fold_replicate)
  from ti obtain n where n: "lastPage ?g 10 n"
    "fetchIssuesOverTime ?g 1699000000000 1700000000000 10 =
           ([1..<Suc n],
            if 0 < n \<and> \<not> ok (?g n) then Inl (pageError (status (?g n)))
            else Inr (issueSeries 1699000000000 1700000000000
                        (fold (eachIssue 1699000000000) (pagesUpTo ?g n) [])))"
    by blast
  from n(1) one have "n = 1" by (rule lastPage_unique [symmetric])
  with n(2) have 3: "fetchIssuesOverTime ?g 1699000000000 1700000000000 10 =
      ([1], Inr [\<lparr>week = 1698883200, tally = 0\<rparr>, \<lparr>week = 1699488000, tally = 1\<rparr>])"
    by (simp add: pagesUpTo_def pageItems_pagesOf_single eachIssue_def notPullRequest_def
        issueSeries_def Let_def weekStartOf_def jsRem_def secondsPerWeek_def
        countDate_def getOr0_def buildWeeks.simps)
  from ti obtain c where c: "lastPage ?g 10 c"
    "fetchIssuesClosedOverTime ?g 1699000000000 1700000000000 10 =
           ([1..<Suc c],
            if 0 < c \<and> \<not> ok (?g c) then Inl (pageError (status (?g c)))
            else Inr (issueSeries 1699000000000 1700000000000
                        (fold (eachClosed 1699000000000) (pagesUpTo ?g c) [])))"
    by blast
  from c(1) one have "c = 1" by (rule lastPage_unique [symmetric])
  with c(2) have 4: "fetchIssuesClosedOverTime ?g 1699000000000 1700000000000 10 =
      ([1], Inr [\<lparr>week = 1698883200, tally = 0\<rparr>, \<lparr>week = 1699488000, tally = 1\<rparr>])"
    by (simp add: pagesUpTo_def pageItems_pagesOf_single eachClosed_def notPullRequest_def
        issueSeries_def Let_def weekStartOf_def jsRem_def secondsPerWeek_def
        countDate_def getOr0_def buildWeeks.simps)
  from 1 2 3 4 show ?thesis by (intro conjI)
qed

subsection \<open>C7: alignment of the weeks\<close>

text \<open>
  C7. The start of the week of any timestamp, \<open>t - (t % 604800)\<close>, is divisible by
  604800: the grid is anchored at the Unix epoch, the only anchor in the code. So are
  the first and the current week, which are week starts, and every week of a series
  that \<^verbatim>\<open>fetchStarHistory\<close>, \<^verbatim>\<open>fetchIssuesOverTime\<close> or \<^verbatim>\<open>fetchIssuesClosedOverTime\<close>
  returns.
\<close>

theorem week_alignment:
  "weekStartOf t mod 604800 = 0
   \<and> (\<forall>s. snd (fetchStarHistory f nowMs M) = Inr s \<longrightarrow> (\<forall>p \<in> set s. week p mod 604800 = 0))
   \<and> (\<forall>s. snd (fetchIssuesOverTime g h nowMs M) = Inr s \<longrightarrow> (\<forall>p \<in> set s. week p mod 604800 = 0))
   \<and> (\<forall>s. snd (fetchIssuesClosedOverTime g h nowMs M) = Inr s \<longrightarrow> (\<forall>p \<in> set s. week p mod 604800 = 0))"
proof -
  have a: "weekStartOf t mod 604800 = 0" for t
    using weekStartOf_mod [of t] by (simp add: secondsPerWeek_eq)
  have al: "week p mod 604800 = 0" if "p \<in> set (buildWeeks m (weekStartOf u) cur [])" for p m u cur
    using buildWeeks_aligned [OF weekStartOf_mod that] by (simp add: secondsPerWeek_eq)
  have b: "\<forall>p \<in> set s. week p mod 604800 = 0" if "snd (fetchStarHistory f nowMs M) = Inr s" for s
    using fetchStarHistory_series [OF that] al by auto
  have c: "\<forall>p \<in> set s. week p mod 604800 = 0" if "snd (fetchIssuesOverTime g h nowMs M) = Inr s" for s
    using fetchIssuesOverTime_series [OF that] al by (auto simp: issueSeries_eq)
  have d: "\<forall>p \<in> set s. week p mod 604800 = 0" if "snd (fetchIssuesClosedOverTime g h nowMs M) = Inr s" for s
    using fetchIssuesClosedOverTime_series [OF that] al by (auto simp: issueSeries_eq)
  from a b c d show ?thesis by blast
qed

theorem week_alignment_witness:
  "weekStartOf 1700000000 = 1699488000
   \<and> (1699488000::int) mod 604800 = 0
   \<and> snd (fetchStarHistory
     (pagesOf [[\<lparr>starred_at = Some 604800000000\<rparr>, \<lparr>starred_at = Some 606009600000\<rparr>]])
     606009600000 10)
   = Inr [\<lparr>week = 604800000, tally = 1\<rparr>, \<lparr>week = 605404800, tally = 0\<rparr>, \<lparr>week = 606009600, tally = 1\<rparr>]
   \<and> (604800000::int) mod 604800 = 0 \<and> (605404800::int) mod 604800 = 0 \<and> (606009600::int) mod 604800 = 0
   \<and> snd (fetchIssuesOverTime
     (pagesOf [[\<lparr>created_at = Some 1699900000000, closed_at = Some 1699950000000, pull_request = None\<rparr>,
                \<lparr>created_at = Some 1699900000000, closed_at = Some 1699950000000, pull_request = Some JObj\<rparr>]])
     1699000000000 1700000000000 10)
   = Inr [\<lparr>week = 1698883200, tally = 0\<rparr>, \<lparr>week = 1699488000, tally = 1\<rparr>]
   \<and> snd (fetchIssuesClosedOverTime
     (pagesOf [[\<lparr>created_at = Some 1699900000000, closed_at = Some 1699950000000, pull_request = None\<rparr>,
                \<lparr>created_at = Some 1699900000000, closed_at = Some 1699950000000, pull_request = Some JObj\<rparr>]])
     1699000000000 1700000000000 10)
   = Inr [\<lparr>week = 1698883200, tally = 0\<rparr>, \<lparr>week = 1699488000, tally = 1\<rparr>]
   \<and> (1698883200::int) mod 604800 = 0"
proof -
  let ?fs = "pagesOf [[\<lparr>starred_at = Some 604800000000\<rparr>, \<lparr>starred_at = Some (606009600000::int)\<rparr>]]"
  let ?fi = "pagesOf [[\<lparr>created_at = Some (1699900000000::int), closed_at = Some (1699950000000::int), pull_request = None\<rparr>,
                \<lparr>created_at = Some 1699900000000, closed_at = Some 1699950000000, pull_request = Some JObj\<rparr>]]"
  let ?s = "[\<lparr>week = 604800000, tally = 1\<rparr>, \<lparr>week = 605404800, tally = 0\<rparr>, \<lparr>week = 606009600, tally = 1\<rparr>]"
  let ?t = "[\<lparr>week = 1698883200, tally = 0\<rparr>, \<lparr>week = 1699488000, tally = 1\<rparr>]"
  note th = week_alignment [where t = 1700000000 and f = ?fs and nowMs = 606009600000 and M = 10]
  note ti = week_alignment [where g = ?fi and h = 1699000000000 and nowMs = 1700000000000 and M = 10]
  have w: "weekStartOf 1700000000 = 1699488000"
    by (simp add: weekStartOf_def jsRem_def secondsPerWeek_def)
  have s: "snd (fetchStarHistory ?fs 606009600000 10) = Inr ?s"
    by (simp add: stars_example)
  have t: "snd (fetchIssuesOverTime ?fi 1699000000000 1700000000000 10) = Inr ?t"
    by (simp add: issues_example)
  have c: "snd (fetchIssuesClosedOverTime ?fi 1699000000000 1700000000000 10) = Inr ?t"
    by (simp add: closed_example)
  from th have "weekStartOf 1700000000 mod 604800 = 0" by blast
  moreover from th s have "\<forall>p \<in> set ?s. week p mod 604800 = 0" by blast
  moreover from ti t have "\<forall>p \<in> set ?t. week p mod 604800 = 0" by blast
  moreover from ti c have "\<forall>p \<in> set ?t. week p mod 604800 = 0" by blast
  ultimately show ?thesis
    using w s t c by simp
qed

subsection \<open>C8: status 202 on the commit activity\<close>

text \<open>
  C8. A response with status 202 has \<^verbatim>\<open>response.ok\<close> true, so the check for 202, which
  stands inside \<^verbatim>\<open>if (!response.ok)\<close>, is never reached: with a non-empty array as
  body \<^verbatim>\<open>fetchCommitActivity\<close> returns the weeks instead of throwing
  \<^verbatim>\<open>StatsComputingError\<close>. With a body that is not an array it does throw it, through
  the later check of the body. Status 404 throws the not-found error and 403 the
  rate-limit error, whatever the body.
\<close>

theorem fetchCommitActivity_status_202:
  "ok \<lparr>status = 202, body = Array [(0, 5, [1, 1, 1, 1, 1, 0, 0])]\<rparr>
   \<and> fetchCommitActivity \<lparr>status = 202, body = Array [(0, 5, [1, 1, 1, 1, 1, 0, 0])]\<rparr>
       = Inr [(0, 5, [1, 1, 1, 1, 1, 0, 0])]
   \<and> fetchCommitActivity \<lparr>status = 202, body = NotArray\<rparr> = Inl StatsComputing
   \<and> fetchCommitActivity \<lparr>status = 404, body = b\<rparr> = Inl NotFound
   \<and> fetchCommitActivity \<lparr>status = 403, body = b\<rparr> = Inl RateLimited"
  by (simp add: fetchCommitActivity_def ok_def statsError_def)

subsection \<open>C9: a page that fails\<close>

text \<open>
  C9. If a page that one of the three paginated operations requested was not delivered
  (\<^verbatim>\<open>response.ok\<close> false), the first page or a later one, the operation throws the
  error for the status of that page (not found for 404, rate limit for 403, the
  fetch failure otherwise) and returns no series: the dates of the earlier pages
  are dropped. The witness is a run whose third page answers 403 after two full pages.
\<close>

theorem pagination_failure:
  "(p \<in> set (fst (fetchStarHistory fs nowMs maxPages)) \<and> \<not> ok (fs p) \<longrightarrow>
      snd (fetchStarHistory fs nowMs maxPages) = Inl (pageError (status (fs p))))
   \<and> (p \<in> set (fst (fetchIssuesOverTime fi h nowMs maxPages)) \<and> \<not> ok (fi p) \<longrightarrow>
      snd (fetchIssuesOverTime fi h nowMs maxPages) = Inl (pageError (status (fi p))))
   \<and> (p \<in> set (fst (fetchIssuesClosedOverTime fi h nowMs maxPages)) \<and> \<not> ok (fi p) \<longrightarrow>
      snd (fetchIssuesClosedOverTime fi h nowMs maxPages) = Inl (pageError (status (fi p))))"
proof -
  have a: "snd (fetchStarHistory fs nowMs maxPages) = Inl (pageError (status (fs p)))"
    if "p \<in> set (fst (fetchStarHistory fs nowMs maxPages))" "\<not> ok (fs p)"
  proof -
    from that(1) have "p \<in> set (fst (pageLoop fs eachStar maxPages 1 True [] []))"
      by (simp only: fetchStarHistory_fst)
    from pageLoop_failed_page [OF this that(2)] show ?thesis
      by (rule fetchStarHistory_Inl)
  qed
  have b: "snd (fetchIssuesOverTime fi h nowMs maxPages) = Inl (pageError (status (fi p)))"
    if "p \<in> set (fst (fetchIssuesOverTime fi h nowMs maxPages))" "\<not> ok (fi p)"
  proof -
    from that(1) have "p \<in> set (fst (pageLoop fi (eachIssue h) maxPages 1 True [] []))"
      by (simp only: fetchIssuesOverTime_fst)
    from pageLoop_failed_page [OF this that(2)] show ?thesis
      by (rule fetchIssuesOverTime_Inl)
  qed
  have c: "snd (fetchIssuesClosedOverTime fi h nowMs maxPages) = Inl (pageError (status (fi p)))"
    if "p \<in> set (fst (fetchIssuesClosedOverTime fi h nowMs maxPages))" "\<not> ok (fi p)"
  proof -
    from that(1) have "p \<in> set (fst (pageLoop fi (eachClosed h) maxPages 1 True [] []))"
      by (simp only: fetchIssuesClosedOverTime_fst)
    from pageLoop_failed_page [OF this that(2)] show ?thesis
      by (rule fetchIssuesClosedOverTime_Inl)
  qed
  from a b c show ?thesis by blast
qed

theorem pagination_failure_witness:
  "fetchStarHistory
     (\<lambda>p. if p = 3 then \<lparr>status = 403, body = NotArray\<rparr>
           else \<lparr>status = 200, body = Array (replicate 100 \<lparr>starred_at = Some 604800000000\<rparr>)\<rparr>)
     606009600000 10 = ([1, 2, 3], Inl RateLimited)
   \<and> fetchIssuesOverTime
     (\<lambda>p. if p = 2 then \<lparr>status = 404, body = NotArray\<rparr>
           else \<lparr>status = 200, body = Array (replicate 100
                  \<lparr>created_at = Some 1699900000000, closed_at = None, pull_request = None\<rparr>)\<rparr>)
     1699000000000 1700000000000 10 = ([1, 2], Inl NotFound)
   \<and> fetchIssuesClosedOverTime
     (\<lambda>p. if p = 2 then \<lparr>status = 500, body = NotArray\<rparr>
           else \<lparr>status = 200, body = Array (replicate 100
                  \<lparr>created_at = Some 1699900000000, closed_at = None, pull_request = None\<rparr>)\<rparr>)
     1699000000000 1700000000000 10 = ([1, 2], Inl FetchFailed)"
proof -
  let ?f = "\<lambda>p::nat. if p = 3 then \<lparr>status = 403, body = NotArray\<rparr>
           else \<lparr>status = 200, body = Array (replicate 100 \<lparr>starred_at = Some (604800000000::int)\<rparr>)\<rparr>"
  let ?g = "\<lambda>p::nat. if p = 2 then \<lparr>status = 404, body = NotArray\<rparr>
           else \<lparr>status = 200, body = Array (replicate 100
                  \<lparr>created_at = Some (1699900000000::int), closed_at = None :: int option,
                   pull_request = None\<rparr>)\<rparr>"
  let ?k = "\<lambda>p::nat. if p = 2 then \<lparr>status = 500, body = NotArray\<rparr>
           else \<lparr>status = 200, body = Array (replicate 100
                  \<lparr>created_at = Some (1699900000000::int), closed_at = None :: int option,
                   pull_request = None\<rparr>)\<rparr>"
  have req: "fst (fetchStarHistory ?f 606009600000 10) = [1, 2, 3]"
    by (simp add: fetchStarHistory_fst pageLoop_full pageLoop_fail pageSize_def pageItems_def ok_def)
  have "\<not> ok (?f 3)" by (simp add: ok_def)
  moreover have "3 \<in> set (fst (fetchStarHistory ?f 606009600000 10))"
    by (simp add: req)
  ultimately have "snd (fetchStarHistory ?f 606009600000 10) = Inl (pageError (status (?f 3)))"
    using pagination_failure [where p = 3 and fs = ?f and nowMs = 606009600000 and maxPages = 10]
    by blast
  then have 1: "snd (fetchStarHistory ?f 606009600000 10) = Inl RateLimited"
    by (simp add: pageError_def)
  have reqg: "fst (fetchIssuesOverTime ?g 1699000000000 1700000000000 10) = [1, 2]"
    by (simp add: fetchIssuesOverTime_fst pageLoop_full pageLoop_fail pageSize_def pageItems_def ok_def)
  have "\<not> ok (?g 2)" by (simp add: ok_def)
  moreover have "2 \<in> set (fst (fetchIssuesOverTime ?g 1699000000000 1700000000000 10))"
    by (simp add: reqg)
  ultimately have "snd (fetchIssuesOverTime ?g 1699000000000 1700000000000 10)
      = Inl (pageError (status (?g 2)))"
    using pagination_failure [where p = 2 and fi = ?g and h = 1699000000000
        and nowMs = 1700000000000 and maxPages = 10]
    by blast
  then have 2: "snd (fetchIssuesOverTime ?g 1699000000000 1700000000000 10) = Inl NotFound"
    by (simp add: pageError_def)
  have reqk: "fst (fetchIssuesClosedOverTime ?k 1699000000000 1700000000000 10) = [1, 2]"
    by (simp add: fetchIssuesClosedOverTime_fst pageLoop_full pageLoop_fail pageSize_def
        pageItems_def ok_def)
  have "\<not> ok (?k 2)" by (simp add: ok_def)
  moreover have "2 \<in> set (fst (fetchIssuesClosedOverTime ?k 1699000000000 1700000000000 10))"
    by (simp add: reqk)
  ultimately have "snd (fetchIssuesClosedOverTime ?k 1699000000000 1700000000000 10)
      = Inl (pageError (status (?k 2)))"
    using pagination_failure [where p = 2 and fi = ?k and h = 1699000000000
        and nowMs = 1700000000000 and maxPages = 10]
    by blast
  then have 3: "snd (fetchIssuesClosedOverTime ?k 1699000000000 1700000000000 10) = Inl FetchFailed"
    by (simp add: pageError_def)
  from req 1 reqg 2 reqk 3 show ?thesis
    by (simp add: prod_eq_iff)
qed

subsection \<open>C10: a body that is not ready\<close>

text \<open>
  C10, as the claim states it, fails: \<^verbatim>\<open>fetchContributorsOverTime\<close> returns an empty
  series on success when the array is not empty and no contributor lists a week.
\<close>

theorem fetchContributorsOverTime_empty_series:
  "fetchContributorsOverTime \<lparr>status = 200, body = Array [\<lparr>author = ''a'', weeks = []\<rparr>]\<rparr> = Inr []"
  by (simp add: fetchContributorsOverTime_def ok_def contributorWeeks_def eachContributor_def)

text \<open>
  C10, amended. On a successful (2xx) response whose body is not an array, or is the
  empty array, \<^verbatim>\<open>fetchCommitActivity\<close> and \<^verbatim>\<open>fetchContributorsOverTime\<close> throw
  \<^verbatim>\<open>StatsComputingError\<close>. \<^verbatim>\<open>fetchCommitActivity\<close> never returns an empty series.
  \<^verbatim>\<open>fetchContributorsOverTime\<close> returns an empty series exactly when the body is an
  array in which every contributor has an empty list of weeks.
\<close>

theorem stats_body_not_ready:
  "(ok r1 \<and> (body r1 = NotArray \<or> body r1 = Array []) \<longrightarrow>
      fetchCommitActivity r1 = Inl StatsComputing)
   \<and> (ok r2 \<and> (body r2 = NotArray \<or> body r2 = Array []) \<longrightarrow>
      fetchContributorsOverTime r2 = Inl StatsComputing)
   \<and> (\<forall>s. fetchCommitActivity r1 = Inr s \<longrightarrow> s \<noteq> [])
   \<and> (\<forall>s. fetchContributorsOverTime r2 = Inr s \<longrightarrow>
        (s = [] \<longleftrightarrow> (\<exists>data. body r2 = Array data \<and> (\<forall>k \<in> set data. weeks k = []))))"
proof -
  have a: "ok r1 \<and> (body r1 = NotArray \<or> body r1 = Array []) \<longrightarrow>
      fetchCommitActivity r1 = Inl StatsComputing"
    by (auto simp: fetchCommitActivity_def)
  have b: "ok r2 \<and> (body r2 = NotArray \<or> body r2 = Array []) \<longrightarrow>
      fetchContributorsOverTime r2 = Inl StatsComputing"
    by (auto simp: fetchContributorsOverTime_def)
  have c: "\<forall>s. fetchCommitActivity r1 = Inr s \<longrightarrow> s \<noteq> []"
    using fetchCommitActivity_nonempty by blast
  have d: "\<forall>s. fetchContributorsOverTime r2 = Inr s \<longrightarrow>
        (s = [] \<longleftrightarrow> (\<exists>data. body r2 = Array data \<and> (\<forall>k \<in> set data. weeks k = [])))"
    by (auto simp: fetchContributorsOverTime_def contributorWeeks_empty_iff
             split: if_splits json_body.splits)
  from a b c d show ?thesis by blast
qed

theorem stats_body_not_ready_witness:
  "fetchCommitActivity \<lparr>status = 200, body = Array []\<rparr> = Inl StatsComputing
   \<and> fetchContributorsOverTime \<lparr>status = 200, body = NotArray\<rparr> = Inl StatsComputing
   \<and> fetchCommitActivity \<lparr>status = 200, body = Array [(604800, 2, [0, 1, 1, 0, 0, 0, 0])]\<rparr>
       = Inr [(604800, 2, [0, 1, 1, 0, 0, 0, 0])]
   \<and> [(604800, 2, [0, 1, 1, 0, 0, 0, 0])] \<noteq> ([] :: CommitActivity list)
   \<and> fetchContributorsOverTime
       \<lparr>status = 200, body = Array [\<lparr>author = ''a'', weeks = [\<lparr>entry_w = 604800, entry_c = 2\<rparr>]\<rparr>]\<rparr>
       = Inr [\<lparr>week = 604800, tally = 1\<rparr>]
   \<and> weeks \<lparr>author = ''a'', weeks = [\<lparr>entry_w = 604800, entry_c = 2\<rparr>]\<rparr> \<noteq> []"
proof -
  let ?c = "\<lparr>status = 200, body = Array [(604800, 2, [0, 1, 1, 0, 0, 0, 0])]\<rparr> :: CommitActivity response"
  let ?k = "\<lparr>status = 200, body = Array [\<lparr>author = ''a'', weeks = [\<lparr>entry_w = 604800, entry_c = 2\<rparr>]\<rparr>]\<rparr>"
  note th1 = stats_body_not_ready
      [of "\<lparr>status = 200, body = Array []\<rparr>" "\<lparr>status = 200, body = NotArray\<rparr>"]
  note th2 = stats_body_not_ready [of ?c ?k]
  have 1: "fetchCommitActivity \<lparr>status = 200, body = Array []\<rparr> = Inl StatsComputing"
    using th1 by (simp add: ok_def)
  have 2: "fetchContributorsOverTime \<lparr>status = 200, body = NotArray\<rparr> = Inl StatsComputing"
    using th1 by (simp add: ok_def)
  have 3: "fetchCommitActivity ?c = Inr [(604800, 2, [0, 1, 1, 0, 0, 0, 0])]"
    by (simp add: fetchCommitActivity_def ok_def)
  with th2 have 4: "[(604800, 2, [0, 1, 1, 0, 0, 0, 0])] \<noteq> ([] :: CommitActivity list)"
    by blast
  have 5: "fetchContributorsOverTime ?k = Inr [\<lparr>week = 604800, tally = 1\<rparr>]"
    by (simp add: fetchContributorsOverTime_def ok_def contributorWeeks_def eachContributor_def
        eachWeekEntry_def setAdd_def getOr0_def)
  from th2 5 have "([\<lparr>week = 604800, tally = 1\<rparr>] = []) \<longleftrightarrow>
      (\<exists>data. body ?k = Array data \<and> (\<forall>k \<in> set data. weeks k = []))"
    by blast
  then have 6: "weeks \<lparr>author = ''a'', weeks = [\<lparr>entry_w = 604800, entry_c = 2\<rparr>]\<rparr> \<noteq> []"
    by simp
  from 1 2 3 4 5 6 show ?thesis by blast
qed

end
